theory Spec2Isabelle
  imports Main "HOL-Library.Word"
begin

section \<open>Conventions of the embedding\<close>

text \<open>
  This theory embeds the parts of \<^verbatim>\<open>syzygy/zap_timestamp/zap_timestamp.cc\<close> that the
  canonicalisation of a PE image and its PDB rests on.

  \<^item> A byte buffer (\<^verbatim>\<open>uint8*\<close> with a length) is a list of 8-bit words; a pointer into it
    is an index. The target is little-endian (x86 Windows), so a \<^verbatim>\<open>uint16\<close> or
    \<^verbatim>\<open>uint32\<close> read through a cast pointer is assembled low byte first.
  \<^item> A function that returns \<^verbatim>\<open>bool\<close> and mutates its arguments returns
    \<open>error + result\<close>: \<open>Inl Failure\<close> is \<^verbatim>\<open>return false\<close>, \<open>Inr\<close> carries the mutated
    state of a \<^verbatim>\<open>return true\<close>.
  \<^item> An access outside a buffer is undefined behaviour in C++; the model makes it the
    value \<open>Inl OutOfBounds\<close>.
  \<^item> \<^verbatim>\<open>DCHECK\<close> is compiled in or out by the build. Every data-dependent \<^verbatim>\<open>DCHECK\<close> is
    modelled under a flag \<open>dchecks\<close>: when it is set a failing \<^verbatim>\<open>DCHECK\<close> aborts
    (\<open>Inl DcheckFailed\<close>), when it is not the check does not exist. \<^verbatim>\<open>CHECK\<close> always
    aborts (\<open>Inl CheckFailed\<close>).
  \<^item> File offsets, sizes and indices are natural numbers: they are bounded by the size
    of a file or stream, which \<^verbatim>\<open>ftell\<close> and the stream length report in 32 bits.
\<close>

type_synonym uint8 = "8 word"
type_synonym uint32 = "32 word"

datatype error =
    Failure
  | DcheckFailed
  | CheckFailed
  | OutOfBounds
  | NullDereference

definition read_uint16 :: "uint8 list \<Rightarrow> nat \<Rightarrow> nat" where
  "read_uint16 buf i = unat (buf ! i) + 256 * unat (buf ! (i + 1))"

section \<open>Symbol record stream\<close>

text \<open>
  \<^verbatim>\<open>NormalizeSymbolRecordStream\<close> (lines 446-486). The two inner \<^verbatim>\<open>for\<close> loops are
  \<open>find_null_terminator\<close> and \<open>pad_with_nulls\<close>; the \<^verbatim>\<open>while\<close> loop over the records is
  \<open>NormalizeSymbolRecordStream_loop\<close>, with \<open>data\<close> the index the pointer \<^verbatim>\<open>data\<close> stands at.

  The record at \<open>data\<close> reads its size at \<open>data\<close> and \<open>data + 1\<close>, then reads and writes
  indices from \<open>end - 3\<close> up to \<open>end - 1\<close>, and always writes \<open>end - 1\<close> when the size is not
  zero. So the accesses leave the buffer exactly when the size field does, when
  \<open>end\<close> exceeds the length, or when \<open>end - 3\<close> lies before the buffer; these are the
  \<open>OutOfBounds\<close> branches.
\<close>

definition kMaxPadding :: nat where
  "kMaxPadding = 3"

function find_null_terminator :: "uint8 list \<Rightarrow> nat \<Rightarrow> nat \<Rightarrow> nat" where
  "find_null_terminator buf tail end =
     (if tail + 1 < end \<and> buf ! tail \<noteq> 0
      then find_null_terminator buf (tail + 1) end
      else tail)"
  by pat_completeness auto
termination
  by (relation "measure (\<lambda>(buf, tail, end). end - tail)") auto

function pad_with_nulls :: "uint8 list \<Rightarrow> nat \<Rightarrow> nat \<Rightarrow> uint8 list" where
  "pad_with_nulls buf tail end =
     (if tail < end
      then pad_with_nulls (buf[tail := 0]) (tail + 1) end
      else buf)"
  by pat_completeness auto
termination
  by (relation "measure (\<lambda>(buf, tail, end). end - tail)") auto

function NormalizeSymbolRecordStream_loop ::
  "bool \<Rightarrow> uint8 list \<Rightarrow> nat \<Rightarrow> nat \<Rightarrow> error + uint8 list" where
  "NormalizeSymbolRecordStream_loop dchecks buf data data_end =
     (if data < data_end then
        if length buf < data + 2 then Inl OutOfBounds
        else
          let size = read_uint16 buf data; body = data + 2 in
          if dchecks \<and> \<not> 2 \<le> size then Inl DcheckFailed
          else if dchecks \<and> (size + 2) mod 4 \<noteq> 0 then Inl DcheckFailed
          else
            let end = body + size in
            if end < kMaxPadding \<or> length buf < end then Inl OutOfBounds
            else
              let tail = find_null_terminator buf (end - kMaxPadding) end in
              NormalizeSymbolRecordStream_loop dchecks (pad_with_nulls buf tail end) end data_end
      else Inr buf)"
  by pat_completeness auto
termination
  by (relation "measure (\<lambda>(dchecks, buf, data, data_end). data_end - data)") auto

definition NormalizeSymbolRecordStream :: "bool \<Rightarrow> uint8 list \<Rightarrow> error + uint8 list" where
  "NormalizeSymbolRecordStream dchecks stream =
     NormalizeSymbolRecordStream_loop dchecks stream 0 (length stream)"

text \<open>
  The records of a stream, as the \<^verbatim>\<open>while\<close> loop frames them: each is the index its body
  starts at (two bytes after its size field) and its declared size.
\<close>

function symbol_records :: "uint8 list \<Rightarrow> nat \<Rightarrow> nat \<Rightarrow> (nat \<times> nat) list" where
  "symbol_records buf data data_end =
     (if data < data_end
      then (data + 2, read_uint16 buf data)
             # symbol_records buf (data + 2 + read_uint16 buf data) data_end
      else [])"
  by pat_completeness auto
termination
  by (relation "measure (\<lambda>(buf, data, data_end). data_end - data)") auto

text \<open>
  A record as the format and the two \<^verbatim>\<open>DCHECK\<close>s of the loop want it: a size of at least
  2 with \<open>size + 2\<close> a multiple of 4, and a body that lies in the buffer.
\<close>

definition well_formed_record :: "uint8 list \<Rightarrow> nat \<times> nat \<Rightarrow> bool" where
  "well_formed_record buf r =
     (2 \<le> snd r \<and> (snd r + 2) mod 4 = 0 \<and> fst r + snd r \<le> length buf)"

definition well_formed_stream :: "uint8 list \<Rightarrow> bool" where
  "well_formed_stream buf =
     list_all (well_formed_record buf) (symbol_records buf 0 (length buf))"


subsection \<open>Facts about the two inner loops\<close>

declare find_null_terminator.simps [simp del]
declare pad_with_nulls.simps [simp del]
declare NormalizeSymbolRecordStream_loop.simps [simp del]
declare symbol_records.simps [simp del]

lemma find_null_terminator_ge: "tail \<le> find_null_terminator buf tail e"
  by (induction buf tail e rule: find_null_terminator.induct)
     (subst find_null_terminator.simps, auto)

lemma find_null_terminator_lt: "tail < e \<Longrightarrow> find_null_terminator buf tail e < e"
  by (induction buf tail e rule: find_null_terminator.induct)
     (subst find_null_terminator.simps, auto)

lemma find_null_terminator_nul:
  "find_null_terminator buf tail e + 1 < e \<Longrightarrow> buf ! find_null_terminator buf tail e = 0"
  by (induction buf tail e rule: find_null_terminator.induct)
     (subst (asm) find_null_terminator.simps, subst find_null_terminator.simps,
      auto split: if_splits)

lemma find_null_terminator_first:
  "tail \<le> i \<Longrightarrow> i < find_null_terminator buf tail e \<Longrightarrow> buf ! i \<noteq> 0"
proof (induction buf tail e rule: find_null_terminator.induct)
  case (1 buf tail e)
  show ?case
  proof (cases "tail + 1 < e \<and> buf ! tail \<noteq> 0")
    case True
    then have eq: "find_null_terminator buf tail e = find_null_terminator buf (tail + 1) e"
      by (subst find_null_terminator.simps) simp
    show ?thesis
    proof (cases "i = tail")
      case True
      with \<open>tail + 1 < e \<and> buf ! tail \<noteq> 0\<close> show ?thesis by simp
    next
      case False
      with 1 True eq show ?thesis by auto
    qed
  next
    case False
    then have "find_null_terminator buf tail e = tail"
      by (subst find_null_terminator.simps) auto
    with 1 show ?thesis by simp
  qed
qed

lemma find_null_terminator_cong:
  "(\<And>i. tail \<le> i \<Longrightarrow> i + 1 < e \<Longrightarrow> b1 ! i = b2 ! i) \<Longrightarrow>
   find_null_terminator b1 tail e = find_null_terminator b2 tail e"
proof (induction b1 tail e rule: find_null_terminator.induct)
  case (1 buf tail e)
  show ?case
    by (subst find_null_terminator.simps, subst (2) find_null_terminator.simps)
       (use 1 in auto)
qed

text \<open>The first NUL of the last three bytes, when there is one, is where the scan stops.\<close>

lemma find_null_terminator_first_nul:
  assumes "e - 3 \<le> q" "q < e" "buf ! q = 0"
    and "\<forall>i. e - 3 \<le> i \<and> i < q \<longrightarrow> buf ! i \<noteq> 0"
  shows "find_null_terminator buf (e - 3) e = q"
proof -
  let ?p = "find_null_terminator buf (e - 3) e"
  have "\<not> q < ?p"
    using find_null_terminator_first [of "e - 3" q buf e] assms by auto
  moreover have "\<not> ?p < q"
  proof
    assume lt: "?p < q"
    then have "?p + 1 < e" using assms by simp
    then have "buf ! ?p = 0" by (rule find_null_terminator_nul)
    moreover have "e - 3 \<le> ?p" by (rule find_null_terminator_ge)
    ultimately show False using assms(4) lt by blast
  qed
  ultimately show ?thesis by simp
qed

lemma length_pad_with_nulls: "length (pad_with_nulls buf tail e) = length buf"
  by (induction buf tail e rule: pad_with_nulls.induct)
     (subst pad_with_nulls.simps, auto)

lemma nth_pad_with_nulls:
  "e \<le> length buf \<Longrightarrow>
   pad_with_nulls buf tail e ! i = (if tail \<le> i \<and> i < e then 0 else buf ! i)"
proof (induction buf tail e rule: pad_with_nulls.induct)
  case (1 buf tail e)
  show ?case
  proof (cases "tail < e")
    case True
    then have "pad_with_nulls buf tail e = pad_with_nulls (buf[tail := 0]) (tail + 1) e"
      by (subst pad_with_nulls.simps) simp
    with 1 True show ?thesis by (auto simp: nth_list_update)
  next
    case False
    then show ?thesis by (subst pad_with_nulls.simps) auto
  qed
qed

lemma symbol_records_cong:
  "(\<And>i. data \<le> i \<Longrightarrow> b1 ! i = b2 ! i) \<Longrightarrow>
   symbol_records b1 data data_end = symbol_records b2 data data_end"
proof (induction b1 data data_end rule: symbol_records.induct)
  case (1 buf data data_end)
  have sz: "read_uint16 buf data = read_uint16 b2 data"
    using 1(2) by (simp add: read_uint16_def)
  show ?case
    by (subst symbol_records.simps, subst (2) symbol_records.simps)
       (use 1 sz in auto)
qed

subsection \<open>The loop over the records\<close>

text \<open>
  The invariant of the \<^verbatim>\<open>while\<close> loop. \<open>buf\<close> is the stream as it was given, \<open>b\<close> the
  buffer when the loop stands at \<open>data\<close>: it still agrees with \<open>buf\<close> from \<open>data\<close> on. On a
  stream of well-formed records the loop returns; it leaves everything before \<open>data\<close>
  alone; and in each record it keeps the size field and the body up to the index the scan
  stops at, and zeroes the body from there on.
\<close>

lemma NormalizeSymbolRecordStream_loop_correct:
  "list_all (well_formed_record buf) (symbol_records buf data data_end) \<Longrightarrow>
   length b = length buf \<Longrightarrow> (\<And>i. data \<le> i \<Longrightarrow> b ! i = buf ! i) \<Longrightarrow>
   \<exists>final. NormalizeSymbolRecordStream_loop dchecks b data data_end = Inr final \<and>
     length final = length buf \<and>
     (\<forall>i<data. final ! i = b ! i) \<and>
     (\<forall>r \<in> set (symbol_records buf data data_end).
        (\<forall>i. fst r - 2 \<le> i \<and> i < find_null_terminator buf (fst r + snd r - 3) (fst r + snd r)
             \<longrightarrow> final ! i = buf ! i) \<and>
        (\<forall>i. find_null_terminator buf (fst r + snd r - 3) (fst r + snd r) \<le> i \<and> i < fst r + snd r
             \<longrightarrow> final ! i = 0))"
proof (induction buf data data_end arbitrary: b rule: symbol_records.induct)
  case (1 buf data data_end)
  show ?case
  proof (cases "data < data_end")
    case False
    then show ?thesis
      by (subst NormalizeSymbolRecordStream_loop.simps, subst symbol_records.simps)
         (simp add: "1.prems")
  next
    case True
    define sz where "sz = read_uint16 buf data"
    define e where "e = data + 2 + sz"
    define p where "p = find_null_terminator buf (e - 3) e"
    define b1 where "b1 = pad_with_nulls b p e"
    have recs: "symbol_records buf data data_end = (data + 2, sz) # symbol_records buf e data_end"
      using True by (subst symbol_records.simps) (simp add: sz_def e_def)
    from "1.prems"(1) recs have wf: "2 \<le> sz" "(sz + 2) mod 4 = 0" "e \<le> length buf"
      by (simp_all add: well_formed_record_def e_def)
    from "1.prems"(1) recs
    have wf_rest: "list_all (well_formed_record buf) (symbol_records buf e data_end)"
      by (simp add: e_def)
    have szb: "read_uint16 b data = sz"
      using "1.prems"(3) by (simp add: read_uint16_def sz_def)
    have pb: "find_null_terminator b (e - 3) e = p"
      unfolding p_def using "1.prems"(3) wf
      by (intro find_null_terminator_cong) (simp add: e_def)
    have p_bounds: "e - 3 \<le> p" "p < e"
      unfolding p_def using wf
      by (simp_all add: find_null_terminator_ge find_null_terminator_lt e_def)
    have len1: "length b1 = length buf"
      by (simp add: b1_def length_pad_with_nulls "1.prems"(2))
    have nth1: "b1 ! i = (if p \<le> i \<and> i < e then 0 else b ! i)" for i
      unfolding b1_def using wf "1.prems"(2) by (simp add: nth_pad_with_nulls)
    have agree1: "b1 ! i = buf ! i" if "e \<le> i" for i
      using that "1.prems"(3) [of i] by (simp add: nth1 e_def)
    from "1.IH" [OF True, folded sz_def, folded e_def, OF wf_rest len1 agree1]
    obtain final where fin:
      "NormalizeSymbolRecordStream_loop dchecks b1 e data_end = Inr final"
      "length final = length buf"
      "\<forall>i<e. final ! i = b1 ! i"
      "\<forall>r \<in> set (symbol_records buf e data_end).
        (\<forall>i. fst r - 2 \<le> i \<and> i < find_null_terminator buf (fst r + snd r - 3) (fst r + snd r)
             \<longrightarrow> final ! i = buf ! i) \<and>
        (\<forall>i. find_null_terminator buf (fst r + snd r - 3) (fst r + snd r) \<le> i \<and> i < fst r + snd r
             \<longrightarrow> final ! i = 0)"
      by blast
    have step: "NormalizeSymbolRecordStream_loop dchecks b data data_end =
                NormalizeSymbolRecordStream_loop dchecks b1 e data_end"
    proof -
      have e1: "Suc (Suc (data + sz)) = e" and e2: "data + sz - Suc 0 = e - 3"
        by (simp_all add: e_def)
      have e3: "\<not> e < 3" "\<not> length buf < Suc (Suc data)"
        using wf by (simp_all add: e_def)
      show ?thesis
        using True wf "1.prems"(2) e3
        by (subst NormalizeSymbolRecordStream_loop.simps)
           (simp add: szb Let_def kMaxPadding_def e1 e2 pb b1_def)
    qed
    have below: "\<forall>i<data. final ! i = b ! i"
      using fin(3) p_bounds wf by (auto simp: nth1 e_def)
    have this_rec_keep: "\<forall>i. data \<le> i \<and> i < p \<longrightarrow> final ! i = buf ! i"
      using fin(3) p_bounds "1.prems"(3) by (auto simp: nth1)
    have this_rec_zero: "\<forall>i. p \<le> i \<and> i < e \<longrightarrow> final ! i = 0"
      using fin(3) by (auto simp: nth1)
    show ?thesis
      unfolding step recs
      using fin(1,2,4) below this_rec_keep this_rec_zero
      by (simp add: p_def e_def)
  qed
qed

lemma NormalizeSymbolRecordStream_correct:
  assumes "well_formed_stream buf"
  shows "\<exists>final. NormalizeSymbolRecordStream dchecks buf = Inr final \<and>
     length final = length buf \<and>
     (\<forall>r \<in> set (symbol_records buf 0 (length buf)).
        (\<forall>i. fst r - 2 \<le> i \<and> i < find_null_terminator buf (fst r + snd r - 3) (fst r + snd r)
             \<longrightarrow> final ! i = buf ! i) \<and>
        (\<forall>i. find_null_terminator buf (fst r + snd r - 3) (fst r + snd r) \<le> i \<and> i < fst r + snd r
             \<longrightarrow> final ! i = 0))"
  using NormalizeSymbolRecordStream_loop_correct [of buf 0 "length buf" buf dchecks] assms
  unfolding NormalizeSymbolRecordStream_def well_formed_stream_def
  by auto

subsection \<open>Two streams of one record\<close>

text \<open>
  \<open>record_without_nul\<close> is one record of declared size 6 whose last three bytes hold no
  NUL; \<open>record_with_junk\<close> is one record of declared size 6 whose name ends at index 5 and
  is followed by two junk bytes.
\<close>

definition record_without_nul :: "uint8 list" where
  "record_without_nul = [6, 0, 1, 2, 0x61, 0x62, 0x63, 0x64]"

definition record_with_junk :: "uint8 list" where
  "record_with_junk = [6, 0, 1, 2, 0x61, 0, 0x58, 0x58]"

lemma well_formed_record_without_nul: "well_formed_stream record_without_nul"
  by (simp add: well_formed_stream_def well_formed_record_def symbol_records.simps
        read_uint16_def record_without_nul_def)

lemma symbol_records_record_without_nul:
  "symbol_records record_without_nul 0 (length record_without_nul) = [(2, 6)]"
  by (simp add: symbol_records.simps read_uint16_def record_without_nul_def)

lemma well_formed_record_with_junk: "well_formed_stream record_with_junk"
  by (simp add: well_formed_stream_def well_formed_record_def symbol_records.simps
        read_uint16_def record_with_junk_def)

lemma symbol_records_record_with_junk:
  "symbol_records record_with_junk 0 (length record_with_junk) = [(2, 6)]"
  by (simp add: symbol_records.simps read_uint16_def record_with_junk_def)

subsection \<open>What normalisation does to a record\<close>

text \<open>
  Claim C7, as the code has it. On a stream of well-formed records (every size at least 2,
  \<open>size + 2\<close> a multiple of 4, every body inside the stream) normalisation returns, and for
  every record, with \<open>end = body + size\<close>: the scan stops at the first NUL among the bytes
  at \<open>end - 3\<close> and \<open>end - 2\<close>, or else at \<open>end - 1\<close>, whose content it does not look at.
  Every byte of the record before that index (size field included) is unchanged, and every
  byte from that index up to \<open>end - 1\<close> is 0. So when the last three bytes hold a NUL, the
  bytes up to and including the first such NUL are unchanged and the bytes after it are 0;
  when they hold none, the last byte is zeroed and the others are unchanged.

  A record of declared size 14 that ends in \<open>foo\<close>, NUL and two junk bytes ends in \<open>foo\<close>
  and three NULs afterwards, in every build; so does a record of declared size 12 where
  \<^verbatim>\<open>DCHECK\<close>s are compiled out.
\<close>

theorem NormalizeSymbolRecordStream_zeroes_from_terminator:
  "(well_formed_stream buf \<and> (body, sz) \<in> set (symbol_records buf 0 (length buf)) \<longrightarrow>
     (\<exists>buf'. NormalizeSymbolRecordStream dchecks buf = Inr buf' \<and>
        length buf' = length buf \<and>
        body + sz - 3 \<le> find_null_terminator buf (body + sz - 3) (body + sz) \<and>
        find_null_terminator buf (body + sz - 3) (body + sz) < body + sz \<and>
        (\<forall>i. body - 2 \<le> i \<and> i < find_null_terminator buf (body + sz - 3) (body + sz)
             \<longrightarrow> buf' ! i = buf ! i) \<and>
        (\<forall>i. find_null_terminator buf (body + sz - 3) (body + sz) \<le> i \<and> i < body + sz
             \<longrightarrow> buf' ! i = 0) \<and>
        (\<forall>q. body + sz - 3 \<le> q \<and> q < body + sz \<and> buf ! q = 0 \<and>
              (\<forall>i. body + sz - 3 \<le> i \<and> i < q \<longrightarrow> buf ! i \<noteq> 0) \<longrightarrow>
              (\<forall>i. body - 2 \<le> i \<and> i \<le> q \<longrightarrow> buf' ! i = buf ! i) \<and>
              (\<forall>i. q < i \<and> i < body + sz \<longrightarrow> buf' ! i = 0)) \<and>
        ((\<forall>i. body + sz - 3 \<le> i \<and> i < body + sz \<longrightarrow> buf ! i \<noteq> 0) \<longrightarrow>
              (\<forall>i. body - 2 \<le> i \<and> i < body + sz - 1 \<longrightarrow> buf' ! i = buf ! i) \<and>
              buf' ! (body + sz - 1) = 0)))
   \<and> NormalizeSymbolRecordStream dchecks
        [14, 0, a, b, c, d, e, f, g, h, 0x66, 0x6f, 0x6f, 0, x, y]
      = Inr [14, 0, a, b, c, d, e, f, g, h, 0x66, 0x6f, 0x6f, 0, 0, 0]
   \<and> NormalizeSymbolRecordStream False
        [12, 0, a, b, c, d, e, f, 0x66, 0x6f, 0x6f, 0, x, y]
      = Inr [12, 0, a, b, c, d, e, f, 0x66, 0x6f, 0x6f, 0, 0, 0]"
proof -
  have general: "\<exists>buf'. NormalizeSymbolRecordStream dchecks buf = Inr buf' \<and>
        length buf' = length buf \<and>
        body + sz - 3 \<le> find_null_terminator buf (body + sz - 3) (body + sz) \<and>
        find_null_terminator buf (body + sz - 3) (body + sz) < body + sz \<and>
        (\<forall>i. body - 2 \<le> i \<and> i < find_null_terminator buf (body + sz - 3) (body + sz)
             \<longrightarrow> buf' ! i = buf ! i) \<and>
        (\<forall>i. find_null_terminator buf (body + sz - 3) (body + sz) \<le> i \<and> i < body + sz
             \<longrightarrow> buf' ! i = 0) \<and>
        (\<forall>q. body + sz - 3 \<le> q \<and> q < body + sz \<and> buf ! q = 0 \<and>
              (\<forall>i. body + sz - 3 \<le> i \<and> i < q \<longrightarrow> buf ! i \<noteq> 0) \<longrightarrow>
              (\<forall>i. body - 2 \<le> i \<and> i \<le> q \<longrightarrow> buf' ! i = buf ! i) \<and>
              (\<forall>i. q < i \<and> i < body + sz \<longrightarrow> buf' ! i = 0)) \<and>
        ((\<forall>i. body + sz - 3 \<le> i \<and> i < body + sz \<longrightarrow> buf ! i \<noteq> 0) \<longrightarrow>
              (\<forall>i. body - 2 \<le> i \<and> i < body + sz - 1 \<longrightarrow> buf' ! i = buf ! i) \<and>
              buf' ! (body + sz - 1) = 0)"
    if wf: "well_formed_stream buf"
      and mem: "(body, sz) \<in> set (symbol_records buf 0 (length buf))"
  proof -
    let ?e = "body + sz"
    let ?p = "find_null_terminator buf (?e - 3) ?e"
    from NormalizeSymbolRecordStream_correct [OF wf, of dchecks]
    obtain final where fin: "NormalizeSymbolRecordStream dchecks buf = Inr final"
      "length final = length buf"
      and all: "\<forall>r \<in> set (symbol_records buf 0 (length buf)).
        (\<forall>i. fst r - 2 \<le> i \<and> i < find_null_terminator buf (fst r + snd r - 3) (fst r + snd r)
             \<longrightarrow> final ! i = buf ! i) \<and>
        (\<forall>i. find_null_terminator buf (fst r + snd r - 3) (fst r + snd r) \<le> i \<and> i < fst r + snd r
             \<longrightarrow> final ! i = 0)"
      by blast
    from all mem have keep: "\<forall>i. body - 2 \<le> i \<and> i < ?p \<longrightarrow> final ! i = buf ! i"
      and zero: "\<forall>i. ?p \<le> i \<and> i < ?e \<longrightarrow> final ! i = 0"
      by (auto dest!: bspec)
    from wf mem have sz: "2 \<le> sz"
      by (auto simp: well_formed_stream_def well_formed_record_def list_all_iff)
    have ge: "?e - 3 \<le> ?p" by (rule find_null_terminator_ge)
    have lt: "?p < ?e" using sz by (intro find_null_terminator_lt) simp
    have nul_case: "(\<forall>i. body - 2 \<le> i \<and> i \<le> q \<longrightarrow> final ! i = buf ! i) \<and>
              (\<forall>i. q < i \<and> i < ?e \<longrightarrow> final ! i = 0)"
      if q: "?e - 3 \<le> q \<and> q < ?e \<and> buf ! q = 0 \<and>
              (\<forall>i. ?e - 3 \<le> i \<and> i < q \<longrightarrow> buf ! i \<noteq> 0)" for q
    proof -
      from q have pq: "?p = q" by (intro find_null_terminator_first_nul) auto
      have "final ! q = buf ! q" using zero q pq by auto
      with keep zero pq show ?thesis
        by (metis le_eq_less_or_eq less_imp_le_nat)
    qed
    have no_nul_case: "(\<forall>i. body - 2 \<le> i \<and> i < ?e - 1 \<longrightarrow> final ! i = buf ! i) \<and>
              final ! (?e - 1) = 0"
      if nn: "\<forall>i. ?e - 3 \<le> i \<and> i < ?e \<longrightarrow> buf ! i \<noteq> 0"
    proof -
      have "\<not> ?p + 1 < ?e"
      proof
        assume "?p + 1 < ?e"
        then have "buf ! ?p = 0" by (rule find_null_terminator_nul)
        with nn ge lt show False by blast
      qed
      with lt have "?p = ?e - 1" by simp
      with keep zero lt show ?thesis by auto
    qed
    from fin ge lt keep zero nul_case no_nul_case show ?thesis by blast
  qed
  have ex14: "NormalizeSymbolRecordStream dchecks
        [14, 0, a, b, c, d, e, f, g, h, 0x66, 0x6f, 0x6f, 0, x, y]
      = Inr [14, 0, a, b, c, d, e, f, g, h, 0x66, 0x6f, 0x6f, 0, 0, 0]"
    by (simp add: NormalizeSymbolRecordStream_def NormalizeSymbolRecordStream_loop.simps
        read_uint16_def kMaxPadding_def find_null_terminator.simps pad_with_nulls.simps)
  have ex12: "NormalizeSymbolRecordStream False
        [12, 0, a, b, c, d, e, f, 0x66, 0x6f, 0x6f, 0, x, y]
      = Inr [12, 0, a, b, c, d, e, f, 0x66, 0x6f, 0x6f, 0, 0, 0]"
    by (simp add: NormalizeSymbolRecordStream_def NormalizeSymbolRecordStream_loop.simps
        read_uint16_def kMaxPadding_def find_null_terminator.simps pad_with_nulls.simps)
  from general ex14 ex12 show ?thesis by blast
qed

theorem NormalizeSymbolRecordStream_zeroes_from_terminator_witness:
  "well_formed_stream record_with_junk \<and>
   (2, 6) \<in> set (symbol_records record_with_junk 0 (length record_with_junk)) \<and>
   find_null_terminator record_with_junk (2 + 6 - 3) (2 + 6) = 5 \<and>
   NormalizeSymbolRecordStream True record_with_junk = Inr [6, 0, 1, 2, 0x61, 0, 0, 0]"
proof -
  have mem: "(2, 6) \<in> set (symbol_records record_with_junk 0 (length record_with_junk))"
    by (simp add: symbol_records_record_with_junk)
  have p: "find_null_terminator record_with_junk (2 + 6 - 3) (2 + 6) = 5"
    by (simp add: find_null_terminator.simps record_with_junk_def)
  from NormalizeSymbolRecordStream_zeroes_from_terminator [of record_with_junk 2 6 True] well_formed_record_with_junk mem
  obtain buf' where b: "NormalizeSymbolRecordStream True record_with_junk = Inr buf'"
    "length buf' = length record_with_junk"
    "\<forall>i. 2 - 2 \<le> i \<and> i < find_null_terminator record_with_junk (2 + 6 - 3) (2 + 6)
         \<longrightarrow> buf' ! i = record_with_junk ! i"
    "\<forall>i. find_null_terminator record_with_junk (2 + 6 - 3) (2 + 6) \<le> i \<and> i < 2 + 6
         \<longrightarrow> buf' ! i = 0"
    by blast
  have len: "length buf' = 8" using b(2) by (simp add: record_with_junk_def)
  have "buf' ! i = [6, 0, 1, 2, 0x61, 0, 0, 0] ! i" if "i < 8" for i
  proof (cases "i < 5")
    case True
    with b(3) p have "buf' ! i = record_with_junk ! i" by simp
    also have "\<dots> = [6, 0, 1, 2, 0x61, 0, 0, 0] ! i"
      using True by (auto simp: record_with_junk_def nth_Cons' )
    finally show ?thesis .
  next
    case False
    with b(4) p that have "buf' ! i = 0" by simp
    moreover have "[6, 0, 1, 2, 0x61, 0, 0, 0 :: uint8] ! i = 0"
      using False that by (auto simp: nth_Cons')
    ultimately show ?thesis by simp
  qed
  with len have "buf' = [6, 0, 1, 2, 0x61, 0, 0, 0]"
    by (intro nth_equalityI) simp_all
  with b(1) well_formed_record_with_junk mem p show ?thesis by simp
qed

text \<open>
  The claim as the specification words it fails on a record whose last three bytes hold no
  NUL: there is no terminator in them, and yet the last byte is overwritten. And the
  record of declared size 12 of its example fails the alignment \<^verbatim>\<open>DCHECK\<close>
  (12 + 2 is not a multiple of 4) in a build that has \<^verbatim>\<open>DCHECK\<close>s.
\<close>

theorem NormalizeSymbolRecordStream_record_without_nul:
  "NormalizeSymbolRecordStream False [6, 0, 1, 2, 0x61, 0x62, 0x63, 0x64]
     = Inr [6, 0, 1, 2, 0x61, 0x62, 0x63, 0] \<and>
   NormalizeSymbolRecordStream True [6, 0, 1, 2, 0x61, 0x62, 0x63, 0x64]
     = Inr [6, 0, 1, 2, 0x61, 0x62, 0x63, 0] \<and>
   NormalizeSymbolRecordStream True
       [12, 0, 1, 2, 3, 4, 5, 6, 0x66, 0x6f, 0x6f, 0, 0x58, 0x58]
     = Inl DcheckFailed"
  by (simp add: NormalizeSymbolRecordStream_def NormalizeSymbolRecordStream_loop.simps
        read_uint16_def kMaxPadding_def find_null_terminator.simps pad_with_nulls.simps)

text \<open>
  Claim C10. For every record of a stream of well-formed records, normalisation returns
  and the last byte of the record body, at \<open>body + size - 1\<close>, is 0 afterwards. Nothing
  is asked of the content of the record: the witness is a record whose last three bytes
  hold no NUL.
\<close>

theorem NormalizeSymbolRecordStream_last_byte_zero:
  assumes "well_formed_stream buf"
    and "(body, sz) \<in> set (symbol_records buf 0 (length buf))"
  shows "\<exists>buf'. NormalizeSymbolRecordStream dchecks buf = Inr buf' \<and>
           length buf' = length buf \<and> buf' ! (body + sz - 1) = 0"
proof -
  from NormalizeSymbolRecordStream_correct [OF assms(1), of dchecks]
  obtain final where fin: "NormalizeSymbolRecordStream dchecks buf = Inr final"
    "length final = length buf"
    and z: "\<forall>r \<in> set (symbol_records buf 0 (length buf)).
        (\<forall>i. find_null_terminator buf (fst r + snd r - 3) (fst r + snd r) \<le> i \<and> i < fst r + snd r
             \<longrightarrow> final ! i = 0)"
    by blast
  from assms have "2 \<le> sz"
    by (auto simp: well_formed_stream_def well_formed_record_def list_all_iff)
  then have "find_null_terminator buf (body + sz - 3) (body + sz) < body + sz"
    by (intro find_null_terminator_lt) simp
  with z assms(2) \<open>2 \<le> sz\<close> have "final ! (body + sz - 1) = 0"
    by (auto dest!: bspec)
  with fin show ?thesis by simp
qed

theorem NormalizeSymbolRecordStream_last_byte_zero_witness:
  "well_formed_stream record_without_nul \<and>
   (2, 6) \<in> set (symbol_records record_without_nul 0 (length record_without_nul)) \<and>
   (\<exists>buf'. NormalizeSymbolRecordStream True record_without_nul = Inr buf' \<and>
       length buf' = length record_without_nul \<and> buf' ! (2 + 6 - 1) = 0)"
proof -
  have mem: "(2, 6) \<in> set (symbol_records record_without_nul 0 (length record_without_nul))"
    by (simp add: symbol_records_record_without_nul)
  from NormalizeSymbolRecordStream_last_byte_zero [OF well_formed_record_without_nul mem, of True]
    well_formed_record_without_nul mem
  show ?thesis by blast
qed

section \<open>Bytes of a buffer\<close>

text \<open>
  \<open>le_bytes32\<close> and \<open>le_bytes16\<close> are the bytes a \<^verbatim>\<open>uint32\<close> and a 16-bit value occupy in
  memory; \<open>load_uint32\<close> reads a \<^verbatim>\<open>uint32\<close> field. \<open>store_bytes\<close> overwrites a range that
  is known to lie in the buffer; \<open>write_bytes\<close> is a store through a pointer that nothing
  has checked, and leaves the buffer when the range does.
\<close>

definition le_bytes32 :: "uint32 \<Rightarrow> uint8 list" where
  "le_bytes32 w = [ucast w, ucast (drop_bit 8 w), ucast (drop_bit 16 w), ucast (drop_bit 24 w)]"

definition le_bytes16 :: "16 word \<Rightarrow> uint8 list" where
  "le_bytes16 w = [ucast w, ucast (drop_bit 8 w)]"

definition load_uint32 :: "uint8 list \<Rightarrow> nat \<Rightarrow> nat" where
  "load_uint32 buf i =
     unat (buf ! i) + 256 * unat (buf ! (i + 1)) + 65536 * unat (buf ! (i + 2))
       + 16777216 * unat (buf ! (i + 3))"

definition store_bytes :: "uint8 list \<Rightarrow> nat \<Rightarrow> uint8 list \<Rightarrow> uint8 list" where
  "store_bytes buf i bs = take i buf @ bs @ drop (i + length bs) buf"

definition write_bytes :: "uint8 list \<Rightarrow> nat \<Rightarrow> uint8 list \<Rightarrow> error + uint8 list" where
  "write_bytes buf i bs =
     (if i + length bs \<le> length buf then Inr (store_bytes buf i bs) else Inl OutOfBounds)"


section \<open>Layout of the PDB structures\<close>

text \<open>
  \<^verbatim>\<open>pdb::DbiHeader\<close>, \<^verbatim>\<open>pdb::DbiModuleInfoBase\<close> and \<^verbatim>\<open>pdb::DbiSectionContrib\<close> are declared
  in \<^verbatim>\<open>syzygy/pdb/pdb_data.h\<close>, which is not among the sources. The sizes and field
  offsets below are those of the PDB format these packed structures mirror: a 64-byte DBI
  header with \<^verbatim>\<open>age\<close> at 8, \<^verbatim>\<open>gp_modi_size\<close> at 24 and \<^verbatim>\<open>section_contribution_size\<close> at 28;
  a 64-byte module info record with the \<^verbatim>\<open>uint32 offsets\<close> at 52; a 28-byte section
  contribution with the 16-bit \<^verbatim>\<open>pad1\<close> at 2 and \<^verbatim>\<open>pad2\<close> at 18.
\<close>

definition sizeof_DbiHeader :: nat where "sizeof_DbiHeader = 64"
definition offsetof_DbiHeader_age :: nat where "offsetof_DbiHeader_age = 8"
definition offsetof_DbiHeader_gp_modi_size :: nat where "offsetof_DbiHeader_gp_modi_size = 24"
definition offsetof_DbiHeader_section_contribution_size :: nat where
  "offsetof_DbiHeader_section_contribution_size = 28"
definition sizeof_DbiModuleInfoBase :: nat where "sizeof_DbiModuleInfoBase = 64"
definition offsetof_DbiModuleInfoBase_offsets :: nat where
  "offsetof_DbiModuleInfoBase_offsets = 52"
definition sizeof_DbiSectionContrib :: nat where "sizeof_DbiSectionContrib = 28"
definition offsetof_DbiSectionContrib_pad1 :: nat where "offsetof_DbiSectionContrib_pad1 = 2"
definition offsetof_DbiSectionContrib_pad2 :: nat where "offsetof_DbiSectionContrib_pad2 = 18"


section \<open>DBI stream\<close>

text \<open>
  \<^verbatim>\<open>NormalizeDbiStream\<close> (lines 378-444). \<open>skip_string\<close> is the loop
  \<^verbatim>\<open>while (*dbi_data != 0) ++dbi_data;\<close>, which reads until it meets a NUL and so leaves
  the buffer when there is none. \<open>module_info_loop\<close> and \<open>section_contrib_loop\<close> are the
  two \<^verbatim>\<open>while\<close> loops; the first returns the buffer and the index \<^verbatim>\<open>dbi_data\<close> ends at.
  The header fields are read through \<^verbatim>\<open>dbi_header\<close> each time the source names them.
  The sum \<^verbatim>\<open>section_contrib_end_pos\<close> is a 32-bit \<^verbatim>\<open>size_t\<close>.
\<close>

function skip_string :: "uint8 list \<Rightarrow> nat \<Rightarrow> error + nat" where
  "skip_string buf dbi_data =
     (if length buf \<le> dbi_data then Inl OutOfBounds
      else if buf ! dbi_data \<noteq> 0 then skip_string buf (dbi_data + 1)
      else Inr dbi_data)"
  by pat_completeness auto
termination
  by (relation "measure (\<lambda>(buf, dbi_data). length buf - dbi_data)") auto

declare skip_string.simps [simp del]

lemma skip_string_ge: "skip_string buf i = Inr j \<Longrightarrow> i \<le> j"
proof (induction buf i rule: skip_string.induct)
  case (1 buf i)
  show ?case
  proof (cases "\<not> length buf \<le> i \<and> buf ! i \<noteq> 0")
    case True
    with "1.prems" have "skip_string buf (i + 1) = Inr j"
      by (subst (asm) skip_string.simps) simp
    with "1.IH" True have "i + 1 \<le> j" by simp
    then show ?thesis by simp
  next
    case False
    with "1.prems" show ?thesis
      by (subst (asm) skip_string.simps) (auto split: if_splits)
  qed
qed

function module_info_loop :: "uint8 list \<Rightarrow> nat \<Rightarrow> nat \<Rightarrow> error + uint8 list \<times> nat" where
  "module_info_loop buf dbi_data module_info_end =
     (if dbi_data < module_info_end then
        case write_bytes buf (dbi_data + offsetof_DbiModuleInfoBase_offsets) (le_bytes32 0) of
          Inl err \<Rightarrow> Inl err
        | Inr buf' \<Rightarrow>
            (case skip_string buf' (dbi_data + sizeof_DbiModuleInfoBase) of
               Inl err \<Rightarrow> Inl err
             | Inr s1 \<Rightarrow>
                 (case skip_string buf' (s1 + 1) of
                    Inl err \<Rightarrow> Inl err
                  | Inr s2 \<Rightarrow>
                      module_info_loop buf' (((s2 + 1 + 3) div 4) * 4) module_info_end))
      else Inr (buf, dbi_data))"
  by pat_completeness auto
termination
proof (relation "measure (\<lambda>(buf, dbi_data, module_info_end). module_info_end - dbi_data)")
  show "wf (measure (\<lambda>(buf, dbi_data, module_info_end). module_info_end - dbi_data))"
    by simp
next
  fix buf dbi_data module_info_end buf' s1 s2
  assume lt: "dbi_data < module_info_end"
    and "skip_string buf' (dbi_data + sizeof_DbiModuleInfoBase) = Inr s1"
    and "skip_string buf' (s1 + 1) = Inr s2"
  then have "dbi_data + sizeof_DbiModuleInfoBase \<le> s1" "s1 + 1 \<le> s2"
    by (auto dest: skip_string_ge)
  then have "dbi_data < ((s2 + 1 + 3) div 4) * 4" by arith
  with lt show "((buf', ((s2 + 1 + 3) div 4) * 4, module_info_end), buf, dbi_data, module_info_end)
       \<in> measure (\<lambda>(buf, dbi_data, module_info_end). module_info_end - dbi_data)"
    by simp
qed

function section_contrib_loop :: "uint8 list \<Rightarrow> nat \<Rightarrow> nat \<Rightarrow> error + uint8 list" where
  "section_contrib_loop buf dbi_data section_contrib_end =
     (if dbi_data < section_contrib_end then
        case write_bytes buf (dbi_data + offsetof_DbiSectionContrib_pad1) (le_bytes16 0) of
          Inl err \<Rightarrow> Inl err
        | Inr buf' \<Rightarrow>
            (case write_bytes buf' (dbi_data + offsetof_DbiSectionContrib_pad2) (le_bytes16 0) of
               Inl err \<Rightarrow> Inl err
             | Inr buf'' \<Rightarrow>
                 section_contrib_loop buf'' (dbi_data + sizeof_DbiSectionContrib)
                   section_contrib_end)
      else Inr buf)"
  by pat_completeness auto
termination
  by (relation "measure (\<lambda>(buf, dbi_data, section_contrib_end). section_contrib_end - dbi_data)")
     (auto simp: sizeof_DbiSectionContrib_def)

declare module_info_loop.simps [simp del] section_contrib_loop.simps [simp del]

definition NormalizeDbiStream :: "uint32 \<Rightarrow> uint8 list \<Rightarrow> error + uint8 list" where
  "NormalizeDbiStream pdb_age_data dbi_stream =
     (if length dbi_stream < sizeof_DbiHeader then Inl Failure
      else
        let buf = store_bytes dbi_stream offsetof_DbiHeader_age (le_bytes32 pdb_age_data);
            dbi_data = sizeof_DbiHeader
        in
          if length buf < load_uint32 buf offsetof_DbiHeader_gp_modi_size then Inl Failure
          else
            case module_info_loop buf dbi_data
                   (dbi_data + load_uint32 buf offsetof_DbiHeader_gp_modi_size) of
              Inl err \<Rightarrow> Inl err
            | Inr (buf', dbi_data') \<Rightarrow>
                let section_contrib_end_pos =
                      (load_uint32 buf' offsetof_DbiHeader_gp_modi_size + 4
                        + load_uint32 buf' offsetof_DbiHeader_section_contribution_size)
                      mod 2 ^ 32
                in
                  if length buf' < section_contrib_end_pos then Inl Failure
                  else
                    section_contrib_loop buf' (dbi_data' + 4)
                      (dbi_data' + 4
                        + load_uint32 buf' offsetof_DbiHeader_section_contribution_size))"


subsection \<open>What the walks leave alone\<close>






subsection \<open>A stream the length checks let through\<close>

text \<open>
  \<open>short_dbi_stream\<close> is a DBI stream of exactly the 64 bytes of its header, whose header
  declares an empty module info substream and a section contribution substream of 28
  bytes (one record).
\<close>

definition short_dbi_stream :: "uint8 list" where
  "short_dbi_stream =
     [0, 0, 0, 0, 0, 0, 0, 0, 0, 0, 0, 0, 0, 0, 0, 0,
      0, 0, 0, 0, 0, 0, 0, 0, 0, 0, 0, 0, 28, 0, 0, 0,
      0, 0, 0, 0, 0, 0, 0, 0, 0, 0, 0, 0, 0, 0, 0, 0,
      0, 0, 0, 0, 0, 0, 0, 0, 0, 0, 0, 0, 0, 0, 0, 0]"

lemma length_short_dbi_stream: "length short_dbi_stream = 64"
  by (simp add: short_dbi_stream_def)

lemma short_dbi_stream_age: 
  "store_bytes short_dbi_stream offsetof_DbiHeader_age (le_bytes32 1) =
     [0, 0, 0, 0, 0, 0, 0, 0, 1, 0, 0, 0, 0, 0, 0, 0,
      0, 0, 0, 0, 0, 0, 0, 0, 0, 0, 0, 0, 28, 0, 0, 0,
      0, 0, 0, 0, 0, 0, 0, 0, 0, 0, 0, 0, 0, 0, 0, 0,
      0, 0, 0, 0, 0, 0, 0, 0, 0, 0, 0, 0, 0, 0, 0, 0]"
  by (simp add: short_dbi_stream_def store_bytes_def offsetof_DbiHeader_age_def le_bytes32_def)


text \<open>
  Claim C8 fails on the code. \<open>short_dbi_stream\<close> is too short for what its header
  declares: header, signature word and one section contribution need 96 bytes. Both length
  checks compare the length with sizes that leave the header out, so they pass, and the
  section contribution walk writes \<^verbatim>\<open>pad1\<close> at index 70 of a 64-byte buffer.
\<close>

theorem NormalizeDbiStream_short_stream_out_of_bounds:
  "length short_dbi_stream = sizeof_DbiHeader \<and>
   load_uint32 short_dbi_stream offsetof_DbiHeader_gp_modi_size = 0 \<and>
   load_uint32 short_dbi_stream offsetof_DbiHeader_section_contribution_size = 28 \<and>
   NormalizeDbiStream 1 short_dbi_stream = Inl OutOfBounds"
proof -
  have "NormalizeDbiStream 1 short_dbi_stream = Inl OutOfBounds"
    unfolding NormalizeDbiStream_def Let_def short_dbi_stream_age
    by (simp add: length_short_dbi_stream sizeof_DbiHeader_def  offsetof_DbiHeader_gp_modi_size_def
        offsetof_DbiHeader_section_contribution_size_def load_uint32_def
        module_info_loop.simps section_contrib_loop.simps write_bytes_def
        offsetof_DbiSectionContrib_pad1_def le_bytes16_def)
  moreover have "load_uint32 short_dbi_stream offsetof_DbiHeader_gp_modi_size = 0"
    "load_uint32 short_dbi_stream offsetof_DbiHeader_section_contribution_size = 28"
    by (simp_all add: short_dbi_stream_def load_uint32_def offsetof_DbiHeader_gp_modi_size_def
          offsetof_DbiHeader_section_contribution_size_def)
  ultimately show ?thesis
    by (simp add: length_short_dbi_stream sizeof_DbiHeader_def)
qed

section \<open>Files\<close>

text \<open>
  The C standard I/O calls the source makes on a \<^verbatim>\<open>FILE*\<close>. A file is its bytes and the
  position of the stream. What the operating system may refuse is part of the file's
  state: \<open>seek_faults\<close> lists the positions a seek to which fails, and \<open>write_limit\<close>,
  when set, is the position from which the medium takes no more bytes, so that a write
  across it is short. \<^verbatim>\<open>fseek\<close> returns whether it succeeded, \<^verbatim>\<open>fread\<close> the bytes it got
  (fewer than asked at the end of the file), \<^verbatim>\<open>fwrite\<close> the number of bytes it wrote.
\<close>

record FILE =
  file_contents :: "uint8 list"
  file_pos :: nat
  seek_faults :: "nat list"
  write_limit :: "nat option"

definition fseek_to :: "FILE \<Rightarrow> nat \<Rightarrow> bool \<times> FILE" where
  "fseek_to file target =
     (if target \<in> set (seek_faults file) then (False, file)
      else (True, file\<lparr>file_pos := target\<rparr>))"

definition fseek_SET :: "FILE \<Rightarrow> nat \<Rightarrow> bool \<times> FILE" where
  "fseek_SET file offset = fseek_to file offset"

definition fseek_CUR :: "FILE \<Rightarrow> nat \<Rightarrow> bool \<times> FILE" where
  "fseek_CUR file offset = fseek_to file (file_pos file + offset)"

definition fseek_END :: "FILE \<Rightarrow> nat \<Rightarrow> bool \<times> FILE" where
  "fseek_END file offset = fseek_to file (length (file_contents file) + offset)"

definition ftell :: "FILE \<Rightarrow> nat" where
  "ftell file = file_pos file"

definition fread :: "nat \<Rightarrow> FILE \<Rightarrow> uint8 list \<times> FILE" where
  "fread n file =
     (take n (drop (file_pos file) (file_contents file)),
      file\<lparr>file_pos := file_pos file
               + length (take n (drop (file_pos file) (file_contents file)))\<rparr>)"

definition fwrite :: "uint8 list \<Rightarrow> FILE \<Rightarrow> nat \<times> FILE" where
  "fwrite bs file =
     (let n = (case write_limit file of
                 None \<Rightarrow> length bs
               | Some limit \<Rightarrow> min (length bs) (limit - file_pos file));
          old = file_contents file @ replicate (file_pos file - length (file_contents file)) 0
      in (n, file\<lparr>file_contents := take (file_pos file) old @ take n bs
                                        @ drop (file_pos file + n) old,
                   file_pos := file_pos file + n\<rparr>))"


section \<open>MD5\<close>

text \<open>
  \<^verbatim>\<open>base/md5.h\<close> is a library outside the repository. Its streaming interface is
  modelled by what it computes: the context holds the bytes fed so far, and
  \<^verbatim>\<open>MD5Final\<close> applies the digest function \<open>md5\<close>, a parameter, to them.

  \<^verbatim>\<open>Md5Consume\<close> (lines 268-287) reads \<open>bytes\<close> bytes in buffers of 4096 and feeds them
  to the context; a short read is \<^verbatim>\<open>return false\<close>. Its final
  \<^verbatim>\<open>DCHECK_EQ(cur, bytes)\<close> cannot fail: the loop leaves with \<open>cur = bytes\<close>.
\<close>

type_synonym MD5Context = "uint8 list"

definition MD5Init :: MD5Context where
  "MD5Init = []"

definition MD5Update :: "MD5Context \<Rightarrow> uint8 list \<Rightarrow> MD5Context" where
  "MD5Update context bs = context @ bs"

definition MD5Final :: "(uint8 list \<Rightarrow> uint8 list) \<Rightarrow> MD5Context \<Rightarrow> uint8 list" where
  "MD5Final md5 context = md5 context"

function Md5Consume_loop ::
  "nat \<Rightarrow> nat \<Rightarrow> FILE \<Rightarrow> MD5Context \<Rightarrow> error + FILE \<times> MD5Context" where
  "Md5Consume_loop bytes cur file context =
     (if cur < bytes then
        if length (fst (fread (min (bytes - cur) 4096) file)) \<noteq> min (bytes - cur) 4096
        then Inl Failure
        else Md5Consume_loop bytes
               (cur + length (fst (fread (min (bytes - cur) 4096) file)))
               (snd (fread (min (bytes - cur) 4096) file))
               (MD5Update context (fst (fread (min (bytes - cur) 4096) file)))
      else Inr (file, context))"
  by pat_completeness auto
termination
  by (relation "measure (\<lambda>(bytes, cur, file, context). bytes - cur)") auto

declare Md5Consume_loop.simps [simp del]

definition Md5Consume :: "nat \<Rightarrow> FILE \<Rightarrow> MD5Context \<Rightarrow> error + FILE \<times> MD5Context" where
  "Md5Consume bytes file context = Md5Consume_loop bytes 0 file context"


section \<open>The patch address space\<close>

text \<open>
  A \<^verbatim>\<open>PatchAddressSpace\<close> maps ranges of file offsets to \<^verbatim>\<open>PatchData\<close>: a pointer to the
  replacement bytes and a name. The pointers the source stores are \<^verbatim>\<open>NULL\<close> and the
  addresses of three members of the \<^verbatim>\<open>ZapTimestamp\<close> object, so a pointer is one of
  these four; the bytes behind it are read from the object when the patch is applied.

  The space is kept as the list of its entries in the order they were inserted;
  \<open>in_order\<close> is the order \<^verbatim>\<open>begin()\<close> to \<^verbatim>\<open>end()\<close> iterates in, ascending by start.
\<close>

record Range =
  range_start :: nat
  range_size :: nat

definition range_end :: "Range \<Rightarrow> nat" where
  "range_end r = range_start r + range_size r"

definition Intersects :: "Range \<Rightarrow> Range \<Rightarrow> bool" where
  "Intersects r1 r2 = (range_start r1 < range_end r2 \<and> range_start r2 < range_end r1)"

datatype data_pointer =
    NULL
  | addr_timestamp_data
  | addr_pdb_age_data
  | addr_pdb_guid_data

record PatchData =
  patch_data :: data_pointer
  patch_name :: string

type_synonym PatchAddressSpace = "(Range \<times> PatchData) list"


text \<open>
  Modelled from the spec: \<^verbatim>\<open>PatchAddressSpace::Insert\<close> (\<^verbatim>\<open>core::AddressSpace\<close>, declared
  in \<^verbatim>\<open>syzygy/core/address_space.h\<close>, which is not among the sources). "Insertion
  fails if the new range intersects any existing range"; "zero-size ranges are rejected".
\<close>

definition Insert :: "Range \<Rightarrow> PatchData \<Rightarrow> PatchAddressSpace \<Rightarrow> PatchAddressSpace option" where
  "Insert new_range item space =
     (if range_size new_range = 0
         \<or> list_ex (\<lambda>entry. Intersects new_range (fst entry)) space
      then None
      else Some (space @ [(new_range, item)]))"

definition in_order :: "PatchAddressSpace \<Rightarrow> (Range \<times> PatchData) list" where
  "in_order space = sort_key (\<lambda>entry. range_start (fst entry)) space"


section \<open>The PDB container\<close>

text \<open>
  Modelled from the spec: \<^verbatim>\<open>pdb::PdbFile\<close>, \<^verbatim>\<open>pdb::PdbStream\<close>, \<^verbatim>\<open>pdb::PdbByteStream\<close>
  and \<^verbatim>\<open>pdb::WritablePdbStream\<close> (\<^verbatim>\<open>syzygy/pdb\<close>), which are not among the sources. A
  PDB file is a vector of streams indexed by stream id, a missing stream being a null
  pointer (\<open>None\<close>). A stream is either read from the file, and cannot be written in
  place, or a byte stream, a mutable buffer. \<open>PdbByteStream_Init\<close> copies the content of
  a stream into a byte stream; the read of a file stream can fail (the flag of
  \<open>PdbFileStream\<close>), which leaves a buffer of the stream's length. \<open>stream_write\<close> is a
  \<^verbatim>\<open>Write\<close> of the writer of a byte stream at its position, which grows the buffer when the
  bytes do not fit. The ids of the fixed streams are those of the PDB format.
\<close>

datatype PdbStream = PdbFileStream "uint8 list" bool | PdbByteStream "uint8 list"

type_synonym PdbFile = "PdbStream option list"









section \<open>The ZapTimestamp object\<close>

text \<open>
  The members of \<^verbatim>\<open>ZapTimestamp\<close> the modelled functions read or write; Isabelle does not
  take a trailing underscore in a field name, so \<^verbatim>\<open>timestamp_data_\<close> is
  \<open>timestamp_data\<close>. The constructor (lines 490-506) leaves \<^verbatim>\<open>pdb_guid_data_\<close>
  uninitialised: its bytes are a parameter.
\<close>

record ZapTimestamp =
  input_pdb :: string
  timestamp_data :: uint32
  pdb_age_data :: uint32
  pdb_guid_data :: "uint8 list"
  pe_file_addr_space :: PatchAddressSpace
  pdb_file :: "PdbFile option"
  write_image :: bool
  write_pdb :: bool

definition ZapTimestamp_ctor :: "uint8 list \<Rightarrow> ZapTimestamp" where
  "ZapTimestamp_ctor uninitialized =
     \<lparr>input_pdb = [],
      timestamp_data = 1262304000,
      pdb_age_data = 1,
      pdb_guid_data = uninitialized,
      pe_file_addr_space = [],
      pdb_file = None,
      write_image = True,
      write_pdb = True\<rparr>"

definition pointed_bytes :: "ZapTimestamp \<Rightarrow> data_pointer \<Rightarrow> uint8 list option" where
  "pointed_bytes zt p =
     (case p of
        NULL \<Rightarrow> None
      | addr_timestamp_data \<Rightarrow> Some (le_bytes32 (timestamp_data zt))
      | addr_pdb_age_data \<Rightarrow> Some (le_bytes32 (pdb_age_data zt))
      | addr_pdb_guid_data \<Rightarrow> Some (pdb_guid_data zt))"


section \<open>The GUID of the PDB\<close>

text \<open>
  \<^verbatim>\<open>ZapTimestamp::CalculatePdbGuid\<close> (lines 773-838). \<open>opened\<close> is what
  \<^verbatim>\<open>base::OpenFile(input_image_, "rb")\<close> returns. \<open>CalculatePdbGuid_loop\<close> is the
  \<^verbatim>\<open>for\<close> loop over the patch space: the result of the \<^verbatim>\<open>fseek\<close> past a marked range
  is only logged, so the loop goes on with the file as the call left it.
\<close>

fun CalculatePdbGuid_loop ::
  "(Range \<times> PatchData) list \<Rightarrow> nat \<Rightarrow> FILE \<Rightarrow> MD5Context
     \<Rightarrow> error + nat \<times> FILE \<times> MD5Context" where
  "CalculatePdbGuid_loop [] cur pe_file md5_context = Inr (cur, pe_file, md5_context)"
| "CalculatePdbGuid_loop (range_it # rest) cur pe_file md5_context =
     (case (if cur < range_start (fst range_it)
            then Md5Consume (range_start (fst range_it) - cur) pe_file md5_context
            else Inr (pe_file, md5_context)) of
        Inl err \<Rightarrow> Inl err
      | Inr (pe_file', md5_context') \<Rightarrow>
          CalculatePdbGuid_loop rest (range_end (fst range_it))
            (snd (fseek_CUR pe_file' (range_size (fst range_it)))) md5_context')"

definition CalculatePdbGuid ::
  "bool \<Rightarrow> (uint8 list \<Rightarrow> uint8 list) \<Rightarrow> FILE option \<Rightarrow> ZapTimestamp \<Rightarrow> error + ZapTimestamp" where
  "CalculatePdbGuid dchecks md5 opened zt =
     (if dchecks \<and> input_pdb zt = [] then Inl DcheckFailed
      else
        case opened of
          None \<Rightarrow> Inl Failure
        | Some pe_file \<Rightarrow>
            if \<not> fst (fseek_END pe_file 0) then Inl Failure
            else
              let end = ftell (snd (fseek_END pe_file 0)) in
              if \<not> fst (fseek_SET (snd (fseek_END pe_file 0)) 0) then Inl Failure
              else
                case CalculatePdbGuid_loop (in_order (pe_file_addr_space zt)) 0
                       (snd (fseek_SET (snd (fseek_END pe_file 0)) 0)) MD5Init of
                  Inl err \<Rightarrow> Inl err
                | Inr (cur, pe_file', md5_context) \<Rightarrow>
                    (case (if cur < end then Md5Consume (end - cur) pe_file' md5_context
                           else Inr (pe_file', md5_context)) of
                       Inl err \<Rightarrow> Inl err
                     | Inr (pe_file'', md5_context') \<Rightarrow>
                         if dchecks \<and> end \<noteq> ftell pe_file'' then Inl DcheckFailed
                         else Inr (zt\<lparr>pdb_guid_data := MD5Final md5 md5_context'\<rparr>)))"


section \<open>Patching a file\<close>

text \<open>
  \<^verbatim>\<open>UpdateFileInPlace\<close> (lines 289-330). The entries point into the \<^verbatim>\<open>ZapTimestamp\<close>
  object, which the model passes along. \<^verbatim>\<open>fwrite\<close> reads \<open>size\<close> bytes behind the
  pointer: more than the member holds would be a read outside it. The number of bytes
  written is compared with the size and the difference logged; nothing else depends
  on it.
\<close>

fun UpdateFileInPlace_loop ::
  "ZapTimestamp \<Rightarrow> (Range \<times> PatchData) list \<Rightarrow> FILE \<Rightarrow> error + FILE" where
  "UpdateFileInPlace_loop zt [] file = Inr file"
| "UpdateFileInPlace_loop zt (it # rest) file =
     (case pointed_bytes zt (patch_data (snd it)) of
        None \<Rightarrow> UpdateFileInPlace_loop zt rest file
      | Some bs \<Rightarrow>
          if \<not> fst (fseek_SET file (range_start (fst it))) then Inl Failure
          else if length bs < range_size (fst it) then Inl OutOfBounds
          else UpdateFileInPlace_loop zt rest
                 (snd (fwrite (take (range_size (fst it)) bs)
                        (snd (fseek_SET file (range_start (fst it)))))))"

definition UpdateFileInPlace ::
  "ZapTimestamp \<Rightarrow> FILE option \<Rightarrow> PatchAddressSpace \<Rightarrow> error + FILE" where
  "UpdateFileInPlace zt opened updates =
     (case opened of
        None \<Rightarrow> Inl Failure
      | Some file \<Rightarrow> UpdateFileInPlace_loop zt (in_order updates) file)"


section \<open>The bytes the patch space leaves unmarked\<close>

text \<open>
  In the specification's words: the byte stream formed by concatenating every byte of
  the file not covered by any range in the patch space, in ascending file order.
  \<open>pairwise_disjoint\<close> is the invariant of the address space (no empty range, no two
  ranges that intersect); \<open>ascending\<close> and \<open>last_end\<close> describe the walk of the loop.
\<close>

definition marked :: "Range list \<Rightarrow> nat \<Rightarrow> bool" where
  "marked ranges i = list_ex (\<lambda>r. range_start r \<le> i \<and> i < range_end r) ranges"

definition unmarked_between :: "uint8 list \<Rightarrow> Range list \<Rightarrow> nat \<Rightarrow> nat \<Rightarrow> uint8 list" where
  "unmarked_between bytes ranges lo hi =
     map (nth bytes) (filter (\<lambda>i. \<not> marked ranges i) [lo..<hi])"

definition unmarked_bytes :: "uint8 list \<Rightarrow> Range list \<Rightarrow> uint8 list" where
  "unmarked_bytes bytes ranges = unmarked_between bytes ranges 0 (length bytes)"

fun pairwise_disjoint :: "Range list \<Rightarrow> bool" where
  "pairwise_disjoint [] = True"
| "pairwise_disjoint (r # rs) =
     (0 < range_size r \<and> list_all (\<lambda>r'. \<not> Intersects r r') rs \<and> pairwise_disjoint rs)"

fun ascending :: "nat \<Rightarrow> Range list \<Rightarrow> bool" where
  "ascending cur [] = True"
| "ascending cur (r # rs) = (cur \<le> range_start r \<and> ascending (range_end r) rs)"

fun last_end :: "nat \<Rightarrow> Range list \<Rightarrow> nat" where
  "last_end cur [] = cur"
| "last_end cur (r # rs) = last_end (range_end r) rs"


subsection \<open>Reading and hashing\<close>

lemma fread_in_file:
  "file_pos f + n \<le> length (file_contents f) \<Longrightarrow>
   fread n f = (take n (drop (file_pos f) (file_contents f)),
                   f\<lparr>file_pos := file_pos f + n\<rparr>)"
  by (simp add: fread_def min_def)

lemma Md5Consume_loop_in_file:
  "cur \<le> bytes \<Longrightarrow> file_pos f + (bytes - cur) \<le> length (file_contents f) \<Longrightarrow>
   Md5Consume_loop bytes cur f ctx =
     Inr (f\<lparr>file_pos := file_pos f + (bytes - cur)\<rparr>,
          ctx @ take (bytes - cur) (drop (file_pos f) (file_contents f)))"
proof (induction bytes cur f ctx rule: Md5Consume_loop.induct)
  case (1 bytes cur f ctx)
  show ?case
  proof (cases "cur < bytes")
    case False
    with "1.prems" show ?thesis
      by (subst Md5Consume_loop.simps) simp
  next
    case True
    define n where "n = min (bytes - cur) 4096"
    have n: "0 < n" "n \<le> bytes - cur" using True by (simp_all add: n_def)
    have rd: "fread n f = (take n (drop (file_pos f) (file_contents f)),
                   f\<lparr>file_pos := file_pos f + n\<rparr>)"
      using "1.prems" n by (intro fread_in_file) simp
    have len: "length (take n (drop (file_pos f) (file_contents f))) = n"
      using "1.prems" n by simp
    have ih: "Md5Consume_loop bytes (cur + n) (f\<lparr>file_pos := file_pos f + n\<rparr>)
            (MD5Update ctx (take n (drop (file_pos f) (file_contents f)))) =
          Inr (f\<lparr>file_pos := file_pos f + n\<rparr>
                  \<lparr>file_pos := file_pos (f\<lparr>file_pos := file_pos f + n\<rparr>) + (bytes - (cur + n))\<rparr>,
               MD5Update ctx (take n (drop (file_pos f) (file_contents f)))
                 @ take (bytes - (cur + n))
                     (drop (file_pos (f\<lparr>file_pos := file_pos f + n\<rparr>))
                        (file_contents (f\<lparr>file_pos := file_pos f + n\<rparr>))))"
      using "1.IH" [OF True, folded n_def, unfolded rd fst_conv snd_conv len] "1.prems" n
      by simp
    have split: "take n (drop (file_pos f) (file_contents f))
          @ take (bytes - (cur + n)) (drop (file_pos f + n) (file_contents f))
        = take (bytes - cur) (drop (file_pos f) (file_contents f))"
    proof -
      have "bytes - cur = n + (bytes - (cur + n))" using n by simp
      then show ?thesis
        by (metis add.commute drop_drop take_add)
    qed
    have step: "Md5Consume_loop bytes cur f ctx =
        Md5Consume_loop bytes (cur + n) (f\<lparr>file_pos := file_pos f + n\<rparr>)
            (MD5Update ctx (take n (drop (file_pos f) (file_contents f))))"
      using True len
      by (subst Md5Consume_loop.simps) (simp add: n_def [symmetric] rd)
    show ?thesis
      unfolding step ih using n split by (simp add: MD5Update_def)
  qed
qed

lemma Md5Consume_in_file:
  "file_pos f + bytes \<le> length (file_contents f) \<Longrightarrow>
   Md5Consume bytes f ctx =
     Inr (f\<lparr>file_pos := file_pos f + bytes\<rparr>,
          ctx @ take bytes (drop (file_pos f) (file_contents f)))"
  using Md5Consume_loop_in_file [of 0 bytes f ctx] by (simp add: Md5Consume_def)

lemma map_nth_upt: "hi \<le> length xs \<Longrightarrow> map (nth xs) [lo..<hi] = take (hi - lo) (drop lo xs)"
  by (intro nth_equalityI) auto

lemma ascending_lower: "ascending c rs \<Longrightarrow> r \<in> set rs \<Longrightarrow> c \<le> range_start r"
proof (induction rs arbitrary: c)
  case Nil
  then show ?case by simp
next
  case (Cons a rs)
  show ?case
  proof (cases "r = a")
    case True
    with Cons.prems show ?thesis by simp
  next
    case False
    with Cons.prems have "range_end a \<le> range_start r"
      by (intro Cons.IH) simp_all
    moreover from Cons.prems have "c \<le> range_start a" by simp
    ultimately show ?thesis by (simp add: range_end_def)
  qed
qed

lemma last_end_ge: "ascending c rs \<Longrightarrow> c \<le> last_end c rs"
proof (induction rs arbitrary: c)
  case Nil
  then show ?case by simp
next
  case (Cons a rs)
  then have "range_end a \<le> last_end (range_end a) rs" by simp
  with Cons.prems show ?case by (simp add: range_end_def)
qed

lemma unmarked_between_split:
  "lo \<le> mid \<Longrightarrow> mid \<le> hi \<Longrightarrow>
   unmarked_between bytes rs lo hi
     = unmarked_between bytes rs lo mid @ unmarked_between bytes rs mid hi"
proof -
  assume "lo \<le> mid" "mid \<le> hi"
  then have "[lo..<hi] = [lo..<mid] @ [mid..<hi]"
    by (metis le_Suc_ex upt_add_eq_append)
  then show ?thesis by (simp add: unmarked_between_def)
qed

lemma unmarked_between_none_marked:
  "(\<And>i. lo \<le> i \<Longrightarrow> i < hi \<Longrightarrow> \<not> marked rs i) \<Longrightarrow> hi \<le> length bytes \<Longrightarrow>
   unmarked_between bytes rs lo hi = take (hi - lo) (drop lo bytes)"
proof -
  assume a: "\<And>i. lo \<le> i \<Longrightarrow> i < hi \<Longrightarrow> \<not> marked rs i" and b: "hi \<le> length bytes"
  from a have "filter (\<lambda>i. \<not> marked rs i) [lo..<hi] = [lo..<hi]"
    by (intro filter_True) simp
  with b show ?thesis by (simp add: unmarked_between_def map_nth_upt)
qed

lemma unmarked_between_all_marked:
  "(\<And>i. lo \<le> i \<Longrightarrow> i < hi \<Longrightarrow> marked rs i) \<Longrightarrow> unmarked_between bytes rs lo hi = []"
  by (simp add: unmarked_between_def filter_empty_conv)

lemma unmarked_between_cong:
  "(\<And>i. lo \<le> i \<Longrightarrow> i < hi \<Longrightarrow> marked rs i = marked rs' i) \<Longrightarrow>
   unmarked_between bytes rs lo hi = unmarked_between bytes rs' lo hi"
proof -
  assume a: "\<And>i. lo \<le> i \<Longrightarrow> i < hi \<Longrightarrow> marked rs i = marked rs' i"
  then have "filter (\<lambda>i. \<not> marked rs i) [lo..<hi] = filter (\<lambda>i. \<not> marked rs' i) [lo..<hi]"
    by (intro filter_cong) simp_all
  then show ?thesis by (simp add: unmarked_between_def)
qed

lemma marked_Cons: "marked (r # rs) i = (range_start r \<le> i \<and> i < range_end r \<or> marked rs i)"
  by (simp add: marked_def)

lemma marked_iff: "marked rs i = (\<exists>r \<in> set rs. range_start r \<le> i \<and> i < range_end r)"
  by (simp add: marked_def list_ex_iff)

lemma fseek_CUR_no_faults:
  "seek_faults f = [] \<Longrightarrow> fseek_CUR f n = (True, f\<lparr>file_pos := file_pos f + n\<rparr>)"
  by (simp add: fseek_CUR_def fseek_to_def)

lemma CalculatePdbGuid_loop_correct:
  "ascending cur (map fst es) \<Longrightarrow> file_pos f = cur \<Longrightarrow> seek_faults f = [] \<Longrightarrow>
   (\<And>r. r \<in> set (map fst es) \<Longrightarrow> range_end r \<le> length (file_contents f)) \<Longrightarrow>
   cur \<le> length (file_contents f) \<Longrightarrow>
   CalculatePdbGuid_loop es cur f ctx =
     Inr (last_end cur (map fst es), f\<lparr>file_pos := last_end cur (map fst es)\<rparr>,
          ctx @ unmarked_between (file_contents f) (map fst es) cur (last_end cur (map fst es)))"
proof (induction es arbitrary: cur f ctx)
  case Nil
  then show ?case by (simp add: unmarked_between_def)
next
  case (Cons e es)
  define r where "r = fst e"
  define bytes where "bytes = file_contents f"
  define rs where "rs = map fst es"
  define f1 where "f1 = f\<lparr>file_pos := range_start r\<rparr>"
  define f2 where "f2 = f\<lparr>file_pos := range_end r\<rparr>"
  define mid where "mid = take (range_start r - cur) (drop cur bytes)"
  from Cons.prems(1) have asc: "cur \<le> range_start r" "ascending (range_end r) rs"
    by (simp_all add: r_def rs_def)
  from Cons.prems(4) [of r] have r_in: "range_end r \<le> length bytes"
    by (simp add: r_def bytes_def)
  have se: "range_start r \<le> range_end r" by (simp add: range_end_def)
  have consume: "(if cur < range_start r then Md5Consume (range_start r - cur) f ctx
                  else Inr (f, ctx)) = Inr (f1, ctx @ mid)"
  proof (cases "cur < range_start r")
    case True
    have "file_pos f + (range_start r - cur) \<le> length (file_contents f)"
      using Cons.prems(2) True r_in se by (simp add: bytes_def)
    from Md5Consume_in_file [OF this, of ctx] True Cons.prems(2) show ?thesis
      by (simp add: f1_def mid_def bytes_def)
  next
    case False
    with asc have "cur = range_start r" by simp
    with Cons.prems(2) show ?thesis by (simp add: f1_def mid_def)
  qed
  have seek: "snd (fseek_CUR f1 (range_size r)) = f2"
    using Cons.prems(3) by (simp add: fseek_CUR_no_faults f1_def f2_def range_end_def)
  have ih: "CalculatePdbGuid_loop es (range_end r) f2 (ctx @ mid) =
     Inr (last_end (range_end r) rs, f2\<lparr>file_pos := last_end (range_end r) rs\<rparr>,
          (ctx @ mid) @ unmarked_between (file_contents f2) rs (range_end r)
             (last_end (range_end r) rs))"
    unfolding rs_def
  proof (rule Cons.IH)
    show "ascending (range_end r) (map fst es)" using asc by (simp add: rs_def)
    show "file_pos f2 = range_end r" by (simp add: f2_def)
    show "seek_faults f2 = []" using Cons.prems(3) by (simp add: f2_def)
    show "range_end r' \<le> length (file_contents f2)" if "r' \<in> set (map fst es)" for r'
      using Cons.prems(4) [of r'] that by (simp add: f2_def)
    show "range_end r \<le> length (file_contents f2)" using r_in by (simp add: f2_def bytes_def)
  qed
  have le_last: "range_end r \<le> last_end (range_end r) rs"
    using asc by (intro last_end_ge)
  have later: "range_end r \<le> range_start r'" if "r' \<in> set rs" for r'
    using asc that by (intro ascending_lower)
  have part1: "unmarked_between bytes (r # rs) cur (range_start r) = mid"
    unfolding mid_def
  proof (rule unmarked_between_none_marked)
    show "range_start r \<le> length bytes" using r_in se by simp
    show "\<not> marked (r # rs) i" if "cur \<le> i" "i < range_start r" for i
      using that later se by (fastforce simp: marked_Cons marked_iff)
  qed
  have part2: "unmarked_between bytes (r # rs) (range_start r) (range_end r) = []"
    by (rule unmarked_between_all_marked) (simp add: marked_Cons)
  have part3: "unmarked_between bytes (r # rs) (range_end r) (last_end (range_end r) rs)
      = unmarked_between bytes rs (range_end r) (last_end (range_end r) rs)"
    by (rule unmarked_between_cong) (simp add: marked_Cons)
  have whole: "unmarked_between bytes (r # rs) cur (last_end (range_end r) rs)
      = mid @ unmarked_between bytes rs (range_end r) (last_end (range_end r) rs)"
    using unmarked_between_split [of cur "range_start r" "last_end (range_end r) rs" bytes "r # rs"]
      unmarked_between_split [of "range_start r" "range_end r" "last_end (range_end r) rs" bytes "r # rs"]
      asc se le_last part1 part2 part3
    by simp
  have "CalculatePdbGuid_loop (e # es) cur f ctx
      = CalculatePdbGuid_loop es (range_end r) f2 (ctx @ mid)"
    by (simp only: CalculatePdbGuid_loop.simps r_def [symmetric] consume sum.case
          prod.case seek)
  also note ih
  finally show ?case
    using whole by (simp add: r_def [symmetric] rs_def [symmetric] bytes_def [symmetric] f2_def)
qed


lemma Intersects_commute: "Intersects r1 r2 = Intersects r2 r1"
  by (auto simp: Intersects_def)

lemma Intersects_self: "0 < range_size r \<Longrightarrow> Intersects r r"
  by (simp add: Intersects_def range_end_def)

lemma pairwise_disjoint_iff:
  "pairwise_disjoint rs \<longleftrightarrow>
     distinct rs \<and> (\<forall>r \<in> set rs. 0 < range_size r) \<and>
     (\<forall>r \<in> set rs. \<forall>r' \<in> set rs. r \<noteq> r' \<longrightarrow> \<not> Intersects r r')"
proof (induction rs)
  case Nil
  then show ?case by simp
next
  case (Cons a rs)
  show ?case
  proof
    assume pd: "pairwise_disjoint (a # rs)"
    then have a: "0 < range_size a" and na: "\<forall>r' \<in> set rs. \<not> Intersects a r'"
      and rest: "pairwise_disjoint rs"
      by (simp_all add: list_all_iff)
    from a na have "a \<notin> set rs" using Intersects_self by blast
    moreover from na have "\<forall>r' \<in> set rs. \<not> Intersects r' a"
      by (simp add: Intersects_commute [of _ a])
    ultimately show "distinct (a # rs) \<and> (\<forall>r \<in> set (a # rs). 0 < range_size r) \<and>
       (\<forall>r \<in> set (a # rs). \<forall>r' \<in> set (a # rs). r \<noteq> r' \<longrightarrow> \<not> Intersects r r')"
      using a na rest Cons.IH by simp
  next
    assume r: "distinct (a # rs) \<and> (\<forall>r \<in> set (a # rs). 0 < range_size r) \<and>
       (\<forall>r \<in> set (a # rs). \<forall>r' \<in> set (a # rs). r \<noteq> r' \<longrightarrow> \<not> Intersects r r')"
    then have "pairwise_disjoint rs" using Cons.IH by simp
    moreover from r have "0 < range_size a" by simp
    moreover from r have "\<forall>r' \<in> set rs. \<not> Intersects a r'" by auto
    ultimately show "pairwise_disjoint (a # rs)" by (simp add: list_all_iff)
  qed
qed

lemma pairwise_disjoint_positive:
  "pairwise_disjoint rs \<Longrightarrow> r \<in> set rs \<Longrightarrow> 0 < range_size r"
  unfolding pairwise_disjoint_iff by simp

lemma pairwise_disjoint_distinct: "pairwise_disjoint rs \<Longrightarrow> distinct rs"
  unfolding pairwise_disjoint_iff by simp

lemma pairwise_disjoint_perm:
  assumes "pairwise_disjoint rs" "distinct rs'" "set rs' = set rs"
  shows "pairwise_disjoint rs'"
  using assms unfolding pairwise_disjoint_iff by simp

lemma sorted_disjoint_ascending:
  "sorted (map range_start rs) \<Longrightarrow> pairwise_disjoint rs \<Longrightarrow>
   (\<And>r. r \<in> set rs \<Longrightarrow> c \<le> range_start r) \<Longrightarrow> ascending c rs"
proof (induction rs arbitrary: c)
  case Nil
  then show ?case by simp
next
  case (Cons r rs)
  have "ascending (range_end r) rs"
  proof (rule Cons.IH)
    show "sorted (map range_start rs)" using Cons.prems(1) by simp
    show "pairwise_disjoint rs" using Cons.prems(2) by simp
    show "range_end r \<le> range_start r'" if "r' \<in> set rs" for r'
    proof -
      from Cons.prems(1) that have "range_start r \<le> range_start r'" by auto
      moreover from Cons.prems(2) that have "\<not> Intersects r r'" by (simp add: list_all_iff)
      moreover from Cons.prems(2) have "pairwise_disjoint rs" by simp
      from this that have "0 < range_size r'" by (rule pairwise_disjoint_positive)
      ultimately show ?thesis by (simp add: Intersects_def range_end_def)
    qed
  qed
  with Cons.prems(3) [of r] show ?case by simp
qed

lemma set_in_order: "set (map fst (in_order space)) = set (map fst space)"
  by (simp add: in_order_def)

lemma distinct_in_order:
  "distinct (map fst space) \<Longrightarrow> distinct (map fst (in_order space))"
  by (simp add: in_order_def distinct_map)

lemma sorted_in_order: "sorted (map range_start (map fst (in_order space)))"
  using sorted_sort_key [of "\<lambda>entry. range_start (fst entry)" space]
  by (simp add: in_order_def comp_def)

lemma ascending_in_order:
  assumes "pairwise_disjoint (map fst space)"
  shows "ascending 0 (map fst (in_order space))"
proof (rule sorted_disjoint_ascending)
  show "sorted (map range_start (map fst (in_order space)))" by (rule sorted_in_order)
  show "pairwise_disjoint (map fst (in_order space))"
    using assms distinct_in_order [OF pairwise_disjoint_distinct [OF assms]] set_in_order
    by (rule pairwise_disjoint_perm)
qed simp

lemma marked_in_order: "marked (map fst (in_order space)) i = marked (map fst space) i"
  by (simp add: marked_iff in_order_def)

lemma last_end_le:
  "(\<And>r. r \<in> set rs \<Longrightarrow> range_end r \<le> n) \<Longrightarrow> c \<le> n \<Longrightarrow> last_end c rs \<le> n"
  by (induction rs arbitrary: c) simp_all

lemma after_last_end_unmarked:
  "ascending c rs \<Longrightarrow> last_end c rs \<le> i \<Longrightarrow> \<not> marked rs i"
proof (induction rs arbitrary: c)
  case Nil
  then show ?case by (simp add: marked_def)
next
  case (Cons r rs)
  from Cons.prems have asc: "ascending (range_end r) rs"
    and le: "last_end (range_end r) rs \<le> i" by simp_all
  from asc have "range_end r \<le> last_end (range_end r) rs" by (rule last_end_ge)
  with le have "\<not> i < range_end r" by simp
  moreover from asc le have "\<not> marked rs i" by (rule Cons.IH)
  ultimately show ?case by (simp add: marked_Cons)
qed

lemma CalculatePdbGuid_correct:
  assumes faults: "seek_faults f = []"
    and disj: "pairwise_disjoint (map fst (pe_file_addr_space zt))"
    and inside: "\<forall>r \<in> set (map fst (pe_file_addr_space zt)). range_end r \<le> length (file_contents f)"
    and pdb: "input_pdb zt \<noteq> []"
  shows "CalculatePdbGuid dchecks md5 (Some f) zt =
     Inr (zt\<lparr>pdb_guid_data :=
            md5 (unmarked_bytes (file_contents f) (map fst (pe_file_addr_space zt)))\<rparr>)"
proof -
  define bytes where "bytes = file_contents f"
  define es where "es = in_order (pe_file_addr_space zt)"
  define rs where "rs = map fst es"
  define f0 where "f0 = f\<lparr>file_pos := 0\<rparr>"
  define c where "c = last_end 0 rs"
  have seek_end: "fseek_END f 0 = (True, f\<lparr>file_pos := length bytes\<rparr>)"
    using faults by (simp add: fseek_END_def fseek_to_def bytes_def)
  have seek_set: "fseek_SET (f\<lparr>file_pos := length bytes\<rparr>) 0 = (True, f0)"
    using faults by (simp add: fseek_SET_def fseek_to_def f0_def)
  have asc: "ascending 0 rs"
    unfolding rs_def es_def using disj by (rule ascending_in_order)
  have set_rs: "set rs = set (map fst (pe_file_addr_space zt))"
    unfolding rs_def es_def by (rule set_in_order)
  have loop: "CalculatePdbGuid_loop es 0 f0 MD5Init =
      Inr (c, f0\<lparr>file_pos := c\<rparr>, MD5Init @ unmarked_between (file_contents f0) rs 0 c)"
    unfolding c_def rs_def
  proof (rule CalculatePdbGuid_loop_correct)
    show "ascending 0 (map fst es)" using asc by (simp add: rs_def)
    show "file_pos f0 = 0" by (simp add: f0_def)
    show "seek_faults f0 = []" using faults by (simp add: f0_def)
    show "range_end r \<le> length (file_contents f0)" if "r \<in> set (map fst es)" for r
      using that inside set_rs by (auto simp: rs_def f0_def)
    show "0 \<le> length (file_contents f0)" by simp
  qed
  have c_le: "c \<le> length bytes"
    unfolding c_def using inside set_rs by (intro last_end_le) (auto simp: bytes_def)
  have tail: "(if c < length bytes then Md5Consume (length bytes - c) (f0\<lparr>file_pos := c\<rparr>)
                  (unmarked_between bytes rs 0 c)
               else Inr (f0\<lparr>file_pos := c\<rparr>, unmarked_between bytes rs 0 c))
      = Inr (f0\<lparr>file_pos := length bytes\<rparr>, unmarked_between bytes rs 0 (length bytes))"
  proof -
    have rest: "unmarked_between bytes rs c (length bytes) = take (length bytes - c) (drop c bytes)"
      by (rule unmarked_between_none_marked)
         (use asc in \<open>auto simp: c_def dest: after_last_end_unmarked\<close>)
    have whole: "unmarked_between bytes rs 0 (length bytes)
        = unmarked_between bytes rs 0 c @ take (length bytes - c) (drop c bytes)"
      using unmarked_between_split [of 0 c "length bytes" bytes rs] c_le rest by simp
    show ?thesis
    proof (cases "c < length bytes")
      case True
      have "file_pos (f0\<lparr>file_pos := c\<rparr>) + (length bytes - c)
              \<le> length (file_contents (f0\<lparr>file_pos := c\<rparr>))"
        using c_le by (simp add: f0_def bytes_def)
      from Md5Consume_in_file [OF this, of "unmarked_between bytes rs 0 c"] True whole c_le
      show ?thesis by (simp add: f0_def bytes_def)
    next
      case False
      with c_le have "c = length bytes" by simp
      with whole show ?thesis by simp
    qed
  qed
  have same: "unmarked_between bytes rs 0 (length bytes)
      = unmarked_bytes bytes (map fst (pe_file_addr_space zt))"
    unfolding unmarked_bytes_def rs_def es_def
    by (rule unmarked_between_cong) (simp add: marked_in_order)
  have loop': "CalculatePdbGuid_loop es 0 f0 [] =
      Inr (c, f0\<lparr>file_pos := c\<rparr>, unmarked_between bytes rs 0 c)"
    using loop by (simp add: MD5Init_def f0_def bytes_def)
  have final_pos: "file_pos (f0\<lparr>file_pos := length bytes\<rparr>) = length bytes"
    by simp
  note facts = seek_end seek_set loop' tail same final_pos
  show ?thesis
    by (simp add: CalculatePdbGuid_def Let_def pdb ftell_def es_def [symmetric] MD5Init_def
          MD5Final_def facts [unfolded bytes_def])
qed


subsection \<open>Writing\<close>





section \<open>Layout of the PE structures\<close>

text \<open>
  The structures of \<^verbatim>\<open>winnt.h\<close> and \<^verbatim>\<open>pe::CvInfoPdb70\<close> (\<^verbatim>\<open>syzygy/pe/pe_data.h\<close>) are
  not among the sources. What \<^verbatim>\<open>OffsetOf\<close> and \<^verbatim>\<open>sizeof\<close> return for them is fixed by the
  PE format: \<^verbatim>\<open>TimeDateStamp\<close> is the second \<^verbatim>\<open>DWORD\<close> of an export, resource or debug
  directory; a debug directory element has 28 bytes; in \<^verbatim>\<open>IMAGE_NT_HEADERS\<close> the file
  header's \<^verbatim>\<open>TimeDateStamp\<close> is at 8 and the optional header's \<^verbatim>\<open>CheckSum\<close> at 88; a
  CodeView record has its 16-byte \<^verbatim>\<open>signature\<close> at 4 and its \<^verbatim>\<open>pdb_age\<close> at 20. No
  theorem below depends on these numbers.
\<close>

definition offsetof_IMAGE_EXPORT_DIRECTORY_TimeDateStamp :: nat where
  "offsetof_IMAGE_EXPORT_DIRECTORY_TimeDateStamp = 4"
definition offsetof_IMAGE_RESOURCE_DIRECTORY_TimeDateStamp :: nat where
  "offsetof_IMAGE_RESOURCE_DIRECTORY_TimeDateStamp = 4"
definition sizeof_IMAGE_DEBUG_DIRECTORY :: nat where
  "sizeof_IMAGE_DEBUG_DIRECTORY = 28"
definition offsetof_IMAGE_DEBUG_DIRECTORY_TimeDateStamp :: nat where
  "offsetof_IMAGE_DEBUG_DIRECTORY_TimeDateStamp = 4"
definition IMAGE_DEBUG_TYPE_CODEVIEW :: uint32 where
  "IMAGE_DEBUG_TYPE_CODEVIEW = 2"
definition offsetof_IMAGE_NT_HEADERS_FileHeader_TimeDateStamp :: nat where
  "offsetof_IMAGE_NT_HEADERS_FileHeader_TimeDateStamp = 8"
definition offsetof_IMAGE_NT_HEADERS_OptionalHeader_CheckSum :: nat where
  "offsetof_IMAGE_NT_HEADERS_OptionalHeader_CheckSum = 88"
definition offsetof_CvInfoPdb70_signature :: nat where
  "offsetof_CvInfoPdb70_signature = 4"
definition offsetof_CvInfoPdb70_pdb_age :: nat where
  "offsetof_CvInfoPdb70_pdb_age = 20"
definition sizeof_DWORD :: nat where
  "sizeof_DWORD = 4"
definition sizeof_GUID :: nat where
  "sizeof_GUID = 16"


section \<open>The decomposed image\<close>

text \<open>
  \<^verbatim>\<open>MarkPeFileRanges\<close> reads the image through typed blocks that the PE parser built
  (\<^verbatim>\<open>block_graph::ConstTypedBlock\<close>, \<^verbatim>\<open>pe::PEFile\<close>; neither is among the sources). The
  model takes what these calls answer:
  \<^item> \<open>dos_header_init\<close>: whether \<^verbatim>\<open>dos_header.Init(0, dos_header_block_)\<close> succeeds;
  \<^item> \<open>nt_headers\<close>: the block \<^verbatim>\<open>dos_header.Dereference(dos_header->e_lfanew, ...)\<close>
    yields, if any;
  \<^item> a \<open>DataDirectoryRef\<close>: \<open>NoReference va\<close> when \<^verbatim>\<open>HasReference\<close> is false (\<open>va\<close> is
    the \<^verbatim>\<open>VirtualAddress\<close> of the entry), \<open>Reference d\<close> when it is true, \<open>d\<close> being what
    \<^verbatim>\<open>Dereference\<close> yields;
  \<^item> \<open>debug_directory\<close>: the debug directory block, \<open>None\<close> when there is no reference
    or \<^verbatim>\<open>Dereference\<close> left \<^verbatim>\<open>debug_dir.block()\<close> null;
  \<^item> \<open>element_PointerToRawData\<close>: what
    \<^verbatim>\<open>debug_dir.Dereference(debug_dir[i].PointerToRawData, &cv_info_pdb)\<close> yields;
  \<^item> \<open>Translate\<close>: \<^verbatim>\<open>pe_file.Translate\<close>, from a relative address to a file offset.
\<close>

record DataDirectory =
  directory_addr :: nat
  directory_TimeDateStamp :: uint32

datatype DataDirectoryRef =
    NoReference uint32
  | Reference "DataDirectory option"

record CvInfoPdb =
  cv_info_addr :: nat

record DebugDirectoryElement =
  element_Type :: uint32
  element_PointerToRawData :: "CvInfoPdb option"

record DebugDirectory =
  debug_directory_addr :: nat
  debug_directory_elements :: "DebugDirectoryElement list"

record NtHeaders =
  nt_headers_addr :: nat
  export_directory :: DataDirectoryRef
  resource_directory :: DataDirectoryRef
  debug_directory :: "DebugDirectory option"

record PEImage =
  dos_header_init :: bool
  nt_headers :: "NtHeaders option"
  Translate :: "nat \<Rightarrow> nat option"


section \<open>Marking the ranges of the PE file\<close>

text \<open>
  The names \<^verbatim>\<open>StringPrintf\<close> builds.
\<close>

definition decimal_digit :: "nat \<Rightarrow> char" where
  "decimal_digit d = ''0123456789'' ! d"

function decimal :: "nat \<Rightarrow> string" where
  "decimal n = (if n < 10 then [decimal_digit n]
                else decimal (n div 10) @ [decimal_digit (n mod 10)])"
  by pat_completeness auto
termination
  by (relation "measure (\<lambda>n. n)") auto

declare decimal.simps [simp del]

definition debug_directory_name :: "nat \<Rightarrow> string" where
  "debug_directory_name i = ''Debug Directory '' @ decimal i @ '' Timestamp''"

definition data_directory_name :: "string \<Rightarrow> string" where
  "data_directory_name data_dir_name = data_dir_name @ '' Timestamp''"


text \<open>
  \<^verbatim>\<open>MarkData\<close> (lines 188-210), \<^verbatim>\<open>MarkDataDirectoryTimestamps\<close> (lines 216-266) and
  \<^verbatim>\<open>ZapTimestamp::MarkPeFileRanges\<close> (lines 649-771). \<open>MarkDebugDirectory\<close> is the
  \<^verbatim>\<open>for\<close> loop over the elements of the debug directory, \<open>i\<close> its counter and
  \<open>cv_info_pdb\<close> the CodeView block found so far; \<open>MarkPdbAgeAndGuid\<close> is the block under
  \<^verbatim>\<open>if (!input_pdb_.empty())\<close>. \<^verbatim>\<open>MarkPeFileRanges\<close> runs on the object after
  \<^verbatim>\<open>DecomposePeFile\<close> has set \<^verbatim>\<open>dos_header_block_\<close>.
\<close>

definition MarkData ::
  "PEImage \<Rightarrow> nat \<Rightarrow> nat \<Rightarrow> data_pointer \<Rightarrow> string \<Rightarrow> PatchAddressSpace
     \<Rightarrow> error + PatchAddressSpace" where
  "MarkData pe_file rel_addr size' data name file_addr_space =
     (case Translate pe_file rel_addr of
        None \<Rightarrow> Inl Failure
      | Some file_addr \<Rightarrow>
          (case Insert \<lparr>range_start = file_addr, range_size = size'\<rparr>
                  \<lparr>patch_data = data, patch_name = name\<rparr> file_addr_space of
             None \<Rightarrow> Inl Failure
           | Some file_addr_space' \<Rightarrow> Inr file_addr_space'))"

definition MarkDataDirectoryTimestamps ::
  "bool \<Rightarrow> PEImage \<Rightarrow> DataDirectoryRef \<Rightarrow> nat \<Rightarrow> string \<Rightarrow> data_pointer
     \<Rightarrow> PatchAddressSpace \<Rightarrow> error + PatchAddressSpace" where
  "MarkDataDirectoryTimestamps dchecks pe_file data_dir_ref offsetof_TimeDateStamp
       data_dir_name timestamp_data' file_addr_space =
     (case data_dir_ref of
        NoReference VirtualAddress \<Rightarrow>
          if dchecks \<and> VirtualAddress \<noteq> 0 then Inl DcheckFailed else Inr file_addr_space
      | Reference None \<Rightarrow> Inl Failure
      | Reference (Some data_dir) \<Rightarrow>
          (case Translate pe_file (directory_addr data_dir) of
             None \<Rightarrow> Inl Failure
           | Some data_dir_addr \<Rightarrow>
               if directory_TimeDateStamp data_dir = 0 then Inr file_addr_space
               else
                 (case Insert \<lparr>range_start = data_dir_addr + offsetof_TimeDateStamp,
                                 range_size = sizeof_DWORD\<rparr>
                         \<lparr>patch_data = timestamp_data',
                          patch_name = data_directory_name data_dir_name\<rparr> file_addr_space of
                    None \<Rightarrow> Inl Failure
                  | Some file_addr_space' \<Rightarrow> Inr file_addr_space')))"

fun MarkDebugDirectory ::
  "PEImage \<Rightarrow> nat \<Rightarrow> nat \<Rightarrow> DebugDirectoryElement list \<Rightarrow> CvInfoPdb option
     \<Rightarrow> PatchAddressSpace \<Rightarrow> error + CvInfoPdb option \<times> PatchAddressSpace" where
  "MarkDebugDirectory pe_file debug_dir_addr i [] cv_info_pdb file_addr_space =
     Inr (cv_info_pdb, file_addr_space)"
| "MarkDebugDirectory pe_file debug_dir_addr i (element # elements) cv_info_pdb file_addr_space =
     (case MarkData pe_file
             (debug_dir_addr
               + (i * sizeof_IMAGE_DEBUG_DIRECTORY + offsetof_IMAGE_DEBUG_DIRECTORY_TimeDateStamp))
             sizeof_DWORD addr_timestamp_data
             (debug_directory_name i) file_addr_space of
        Inl err \<Rightarrow> Inl Failure
      | Inr file_addr_space' \<Rightarrow>
          if element_Type element = IMAGE_DEBUG_TYPE_CODEVIEW then
            if cv_info_pdb \<noteq> None then Inl Failure
            else
              (case element_PointerToRawData element of
                 None \<Rightarrow> Inl Failure
               | Some cv \<Rightarrow>
                   MarkDebugDirectory pe_file debug_dir_addr (i + 1) elements (Some cv)
                     file_addr_space')
          else
            MarkDebugDirectory pe_file debug_dir_addr (i + 1) elements cv_info_pdb
              file_addr_space')"

definition MarkPdbAgeAndGuid ::
  "PEImage \<Rightarrow> string \<Rightarrow> CvInfoPdb option \<Rightarrow> PatchAddressSpace \<Rightarrow> error + PatchAddressSpace" where
  "MarkPdbAgeAndGuid pe_file input_pdb_path cv_info_pdb file_addr_space =
     (if input_pdb_path \<noteq> [] then
        case cv_info_pdb of
          None \<Rightarrow> Inl Failure
        | Some cv \<Rightarrow>
            (case MarkData pe_file (cv_info_addr cv + offsetof_CvInfoPdb70_pdb_age)
                    sizeof_DWORD addr_pdb_age_data ''PDB Age'' file_addr_space of
               Inl err \<Rightarrow> Inl Failure
             | Inr file_addr_space' \<Rightarrow>
                 (case MarkData pe_file (cv_info_addr cv + offsetof_CvInfoPdb70_signature)
                         sizeof_GUID addr_pdb_guid_data ''PDB GUID'' file_addr_space' of
                    Inl err \<Rightarrow> Inl Failure
                  | Inr file_addr_space'' \<Rightarrow> Inr file_addr_space''))
      else Inr file_addr_space)"

definition MarkPeFileRanges :: "bool \<Rightarrow> PEImage \<Rightarrow> ZapTimestamp \<Rightarrow> error + ZapTimestamp" where
  "MarkPeFileRanges dchecks pe_file zt =
     (if \<not> dos_header_init pe_file then Inl Failure
      else
        case nt_headers pe_file of
          None \<Rightarrow> Inl Failure
        | Some nt \<Rightarrow>
            (case MarkDataDirectoryTimestamps dchecks pe_file (export_directory nt)
                    offsetof_IMAGE_EXPORT_DIRECTORY_TimeDateStamp ''Export Directory''
                    addr_timestamp_data (pe_file_addr_space zt) of
               Inl err \<Rightarrow> Inl err
             | Inr space1 \<Rightarrow>
            (case MarkDataDirectoryTimestamps dchecks pe_file (resource_directory nt)
                    offsetof_IMAGE_RESOURCE_DIRECTORY_TimeDateStamp ''Resource Directory''
                    addr_timestamp_data space1 of
               Inl err \<Rightarrow> Inl err
             | Inr space2 \<Rightarrow>
            (case (case debug_directory nt of
                     None \<Rightarrow> Inr (None, space2)
                   | Some debug_dir \<Rightarrow>
                       MarkDebugDirectory pe_file (debug_directory_addr debug_dir) 0
                         (debug_directory_elements debug_dir) None space2) of
               Inl err \<Rightarrow> Inl err
             | Inr (cv_info_pdb, space3) \<Rightarrow>
            (case MarkPdbAgeAndGuid pe_file (input_pdb zt) cv_info_pdb space3 of
               Inl err \<Rightarrow> Inl err
             | Inr space4 \<Rightarrow>
            (case MarkData pe_file
                    (nt_headers_addr nt + offsetof_IMAGE_NT_HEADERS_OptionalHeader_CheckSum)
                    sizeof_DWORD NULL ''PE Checksum'' space4 of
               Inl err \<Rightarrow> Inl Failure
             | Inr space5 \<Rightarrow>
            (case MarkData pe_file
                    (nt_headers_addr nt + offsetof_IMAGE_NT_HEADERS_FileHeader_TimeDateStamp)
                    sizeof_DWORD addr_timestamp_data ''PE Timestamp'' space5 of
               Inl err \<Rightarrow> Inl Failure
             | Inr space6 \<Rightarrow> Inr (zt\<lparr>pe_file_addr_space := space6\<rparr>))))))))"


subsection \<open>What a successful scan has inserted\<close>

text \<open>
  \<open>directory_entries\<close> is the entry a data directory contributes: one when the directory is
  referenced, dereferences and translates and its \<^verbatim>\<open>TimeDateStamp\<close> is not zero, none
  otherwise. The four other definitions are the entries of the age, the GUID, the
  checksum and the file header's timestamp.
\<close>

definition directory_entries ::
  "PEImage \<Rightarrow> DataDirectoryRef \<Rightarrow> nat \<Rightarrow> string \<Rightarrow> (Range \<times> PatchData) list" where
  "directory_entries pe_file data_dir_ref offsetof_TimeDateStamp data_dir_name =
     (case data_dir_ref of
        Reference (Some data_dir) \<Rightarrow>
          (case Translate pe_file (directory_addr data_dir) of
             Some data_dir_addr \<Rightarrow>
               if directory_TimeDateStamp data_dir \<noteq> 0
               then [(\<lparr>range_start = data_dir_addr + offsetof_TimeDateStamp,
                       range_size = sizeof_DWORD\<rparr>,
                      \<lparr>patch_data = addr_timestamp_data,
                       patch_name = data_directory_name data_dir_name\<rparr>)]
               else []
           | None \<Rightarrow> [])
      | _ \<Rightarrow> [])"

definition checksum_entry :: "nat \<Rightarrow> Range \<times> PatchData" where
  "checksum_entry file_addr =
     (\<lparr>range_start = file_addr, range_size = sizeof_DWORD\<rparr>,
      \<lparr>patch_data = NULL, patch_name = ''PE Checksum''\<rparr>)"

definition pe_timestamp_entry :: "nat \<Rightarrow> Range \<times> PatchData" where
  "pe_timestamp_entry file_addr =
     (\<lparr>range_start = file_addr, range_size = sizeof_DWORD\<rparr>,
      \<lparr>patch_data = addr_timestamp_data, patch_name = ''PE Timestamp''\<rparr>)"

definition pdb_age_entry :: "nat \<Rightarrow> Range \<times> PatchData" where
  "pdb_age_entry file_addr =
     (\<lparr>range_start = file_addr, range_size = sizeof_DWORD\<rparr>,
      \<lparr>patch_data = addr_pdb_age_data, patch_name = ''PDB Age''\<rparr>)"

definition pdb_guid_entry :: "nat \<Rightarrow> Range \<times> PatchData" where
  "pdb_guid_entry file_addr =
     (\<lparr>range_start = file_addr, range_size = sizeof_GUID\<rparr>,
      \<lparr>patch_data = addr_pdb_guid_data, patch_name = ''PDB GUID''\<rparr>)"

lemma Insert_Some:
  "Insert r d space = Some space' \<Longrightarrow>
   space' = space @ [(r, d)] \<and> 0 < range_size r \<and> (\<forall>e \<in> set space. \<not> Intersects r (fst e))"
  by (auto simp: Insert_def list_ex_iff split: if_splits)



lemma MarkData_Inr:
  "MarkData pe rel_addr sz p nm space = Inr space' \<Longrightarrow>
   \<exists>a. Translate pe rel_addr = Some a \<and>
       space' = space @ [(\<lparr>range_start = a, range_size = sz\<rparr>,
                          \<lparr>patch_data = p, patch_name = nm\<rparr>)]"
  by (auto simp: MarkData_def split: option.splits dest: Insert_Some)


lemma MarkDataDirectoryTimestamps_Inr:
  "MarkDataDirectoryTimestamps dchecks pe ref off nm addr_timestamp_data space = Inr space' \<Longrightarrow>
   space' = space @ directory_entries pe ref off nm"
  by (auto simp: MarkDataDirectoryTimestamps_def directory_entries_def
           split: DataDirectoryRef.splits option.splits if_splits dest: Insert_Some)


lemma MarkDebugDirectory_Inr:
  "MarkDebugDirectory pe a i elements cv space = Inr (cv', space') \<Longrightarrow>
   \<exists>added. space' = space @ added \<and>
     (\<forall>e \<in> set added. patch_data (snd e) = addr_timestamp_data \<and> range_size (fst e) = sizeof_DWORD \<and>
        (\<exists>k. patch_name (snd e) = debug_directory_name k)) \<and>
     (cv' = cv \<or> (\<exists>element \<in> set elements.
         element_Type element = IMAGE_DEBUG_TYPE_CODEVIEW \<and>
         element_PointerToRawData element = cv'))"
proof (induction elements arbitrary: i cv space)
  case Nil
  then show ?case by simp
next
  case (Cons element elements)
  from Cons.prems obtain space1 where
    m: "MarkData pe (a + (i * sizeof_IMAGE_DEBUG_DIRECTORY
                          + offsetof_IMAGE_DEBUG_DIRECTORY_TimeDateStamp))
          sizeof_DWORD addr_timestamp_data
          (debug_directory_name i) space = Inr space1"
    by (auto split: sum.splits)
  from MarkData_Inr [OF m] obtain aa where
    sp1: "space1 = space @ [(\<lparr>range_start = aa, range_size = sizeof_DWORD\<rparr>,
                  \<lparr>patch_data = addr_timestamp_data, patch_name = debug_directory_name i\<rparr>)]"
    by blast
  define e1 where "e1 = (\<lparr>range_start = aa, range_size = sizeof_DWORD\<rparr>,
                  \<lparr>patch_data = addr_timestamp_data, patch_name = debug_directory_name i\<rparr>)"
  have e1: "space1 = space @ [e1]"
    "patch_data (snd e1) = addr_timestamp_data" "range_size (fst e1) = sizeof_DWORD"
    "patch_name (snd e1) = debug_directory_name i"
    by (simp_all add: sp1 e1_def)
  show ?case
  proof (cases "element_Type element = IMAGE_DEBUG_TYPE_CODEVIEW")
    case True
    with Cons.prems m obtain c where c: "cv = None" "element_PointerToRawData element = Some c"
      and rec: "MarkDebugDirectory pe a (i + 1) elements (Some c) space1 = Inr (cv', space')"
      by (auto split: option.splits if_splits)
    from Cons.IH [OF rec] obtain added where
      "space' = space1 @ added"
      "\<forall>e \<in> set added. patch_data (snd e) = addr_timestamp_data \<and>
          range_size (fst e) = sizeof_DWORD \<and>
          (\<exists>k. patch_name (snd e) = debug_directory_name k)"
      "cv' = Some c \<or> (\<exists>element \<in> set elements.
         element_Type element = IMAGE_DEBUG_TYPE_CODEVIEW \<and>
         element_PointerToRawData element = cv')"
      by blast
    with e1 c True show ?thesis
      by (intro exI [of _ "e1 # added"]) auto
  next
    case False
    with Cons.prems m have
      rec: "MarkDebugDirectory pe a (i + 1) elements cv space1 = Inr (cv', space')"
      by simp
    from Cons.IH [OF rec] obtain added where
      "space' = space1 @ added"
      "\<forall>e \<in> set added. patch_data (snd e) = addr_timestamp_data \<and>
          range_size (fst e) = sizeof_DWORD \<and>
          (\<exists>k. patch_name (snd e) = debug_directory_name k)"
      "cv' = cv \<or> (\<exists>element \<in> set elements.
         element_Type element = IMAGE_DEBUG_TYPE_CODEVIEW \<and>
         element_PointerToRawData element = cv')"
      by blast
    with e1 show ?thesis
      by (intro exI [of _ "e1 # added"]) auto
  qed
qed


lemma MarkPdbAgeAndGuid_Inr:
  "MarkPdbAgeAndGuid pe path cv space = Inr space' \<Longrightarrow>
   (path = [] \<and> space' = space) \<or>
   (path \<noteq> [] \<and> (\<exists>c a_age a_guid. cv = Some c \<and>
      Translate pe (cv_info_addr c + offsetof_CvInfoPdb70_pdb_age) = Some a_age \<and>
      Translate pe (cv_info_addr c + offsetof_CvInfoPdb70_signature) = Some a_guid \<and>
      space' = space @
        [(\<lparr>range_start = a_age, range_size = sizeof_DWORD\<rparr>,
          \<lparr>patch_data = addr_pdb_age_data, patch_name = ''PDB Age''\<rparr>),
         (\<lparr>range_start = a_guid, range_size = sizeof_GUID\<rparr>,
          \<lparr>patch_data = addr_pdb_guid_data, patch_name = ''PDB GUID''\<rparr>)]))"
  by (auto simp: MarkPdbAgeAndGuid_def split: if_splits option.splits sum.splits
           dest!: MarkData_Inr)


lemma MarkPeFileRanges_Inr:
  assumes "MarkPeFileRanges dchecks pe zt = Inr zt'"
  shows "\<exists>nt debug_added pdb_added a_checksum a_timestamp.
     nt_headers pe = Some nt \<and>
     zt' = zt\<lparr>pe_file_addr_space :=
            pe_file_addr_space zt
            @ directory_entries pe (export_directory nt)
                offsetof_IMAGE_EXPORT_DIRECTORY_TimeDateStamp ''Export Directory''
            @ directory_entries pe (resource_directory nt)
                offsetof_IMAGE_RESOURCE_DIRECTORY_TimeDateStamp ''Resource Directory''
            @ debug_added @ pdb_added
            @ [checksum_entry a_checksum, pe_timestamp_entry a_timestamp]\<rparr> \<and>
     (\<forall>e \<in> set debug_added. patch_data (snd e) = addr_timestamp_data \<and>
        range_size (fst e) = sizeof_DWORD \<and> (\<exists>k. patch_name (snd e) = debug_directory_name k)) \<and>
     ((input_pdb zt = [] \<and> pdb_added = []) \<or>
      (input_pdb zt \<noteq> [] \<and>
       (\<exists>debug_dir element cv a_age a_guid.
          debug_directory nt = Some debug_dir \<and>
          element \<in> set (debug_directory_elements debug_dir) \<and>
          element_Type element = IMAGE_DEBUG_TYPE_CODEVIEW \<and>
          element_PointerToRawData element = Some cv \<and>
          Translate pe (cv_info_addr cv + offsetof_CvInfoPdb70_pdb_age) = Some a_age \<and>
          Translate pe (cv_info_addr cv + offsetof_CvInfoPdb70_signature) = Some a_guid \<and>
          pdb_added = [pdb_age_entry a_age, pdb_guid_entry a_guid]))) \<and>
     Translate pe (nt_headers_addr nt + offsetof_IMAGE_NT_HEADERS_OptionalHeader_CheckSum)
       = Some a_checksum \<and>
     Translate pe (nt_headers_addr nt + offsetof_IMAGE_NT_HEADERS_FileHeader_TimeDateStamp)
       = Some a_timestamp"
proof -
  from assms obtain nt where nt: "nt_headers pe = Some nt"
    by (auto simp: MarkPeFileRanges_def split: if_splits option.splits)
  from assms nt obtain space1 space2 cv space3 space4 space5 space6 where
    s1: "MarkDataDirectoryTimestamps dchecks pe (export_directory nt)
            offsetof_IMAGE_EXPORT_DIRECTORY_TimeDateStamp ''Export Directory''
            addr_timestamp_data (pe_file_addr_space zt) = Inr space1"
    and s2: "MarkDataDirectoryTimestamps dchecks pe (resource_directory nt)
            offsetof_IMAGE_RESOURCE_DIRECTORY_TimeDateStamp ''Resource Directory''
            addr_timestamp_data space1 = Inr space2"
    and s3: "(case debug_directory nt of
                None \<Rightarrow> Inr (None, space2)
              | Some debug_dir \<Rightarrow>
                  MarkDebugDirectory pe (debug_directory_addr debug_dir) 0
                    (debug_directory_elements debug_dir) None space2) = Inr (cv, space3)"
    and s4: "MarkPdbAgeAndGuid pe (input_pdb zt) cv space3 = Inr space4"
    and s5: "MarkData pe
               (nt_headers_addr nt + offsetof_IMAGE_NT_HEADERS_OptionalHeader_CheckSum)
               sizeof_DWORD NULL ''PE Checksum'' space4 = Inr space5"
    and s6: "MarkData pe
               (nt_headers_addr nt + offsetof_IMAGE_NT_HEADERS_FileHeader_TimeDateStamp)
               sizeof_DWORD addr_timestamp_data ''PE Timestamp'' space5 = Inr space6"
    and z: "zt' = zt\<lparr>pe_file_addr_space := space6\<rparr>"
    by (auto simp: MarkPeFileRanges_def split: if_splits sum.splits prod.splits)
  note e1 = MarkDataDirectoryTimestamps_Inr [OF s1]
  note e2 = MarkDataDirectoryTimestamps_Inr [OF s2]
  have "\<exists>debug_added. space3 = space2 @ debug_added \<and>
     (\<forall>e \<in> set debug_added. patch_data (snd e) = addr_timestamp_data \<and>
        range_size (fst e) = sizeof_DWORD \<and> (\<exists>k. patch_name (snd e) = debug_directory_name k)) \<and>
     (cv = None \<or> (\<exists>debug_dir. debug_directory nt = Some debug_dir \<and>
        (\<exists>element \<in> set (debug_directory_elements debug_dir).
           element_Type element = IMAGE_DEBUG_TYPE_CODEVIEW \<and>
           element_PointerToRawData element = cv)))"
  proof (cases "debug_directory nt")
    case None
    with s3 show ?thesis by simp
  next
    case (Some debug_dir)
    with s3 have "MarkDebugDirectory pe (debug_directory_addr debug_dir) 0
                    (debug_directory_elements debug_dir) None space2 = Inr (cv, space3)"
      by simp
    from MarkDebugDirectory_Inr [OF this] Some show ?thesis by auto
  qed
  then obtain debug_added where e3: "space3 = space2 @ debug_added"
    and d3: "\<forall>e \<in> set debug_added. patch_data (snd e) = addr_timestamp_data \<and>
        range_size (fst e) = sizeof_DWORD \<and> (\<exists>k. patch_name (snd e) = debug_directory_name k)"
    and cv: "cv = None \<or> (\<exists>debug_dir. debug_directory nt = Some debug_dir \<and>
        (\<exists>element \<in> set (debug_directory_elements debug_dir).
           element_Type element = IMAGE_DEBUG_TYPE_CODEVIEW \<and>
           element_PointerToRawData element = cv))"
    by blast
  have "\<exists>pdb_added. space4 = space3 @ pdb_added \<and>
     ((input_pdb zt = [] \<and> pdb_added = []) \<or>
      (input_pdb zt \<noteq> [] \<and>
       (\<exists>debug_dir element c a_age a_guid.
          debug_directory nt = Some debug_dir \<and>
          element \<in> set (debug_directory_elements debug_dir) \<and>
          element_Type element = IMAGE_DEBUG_TYPE_CODEVIEW \<and>
          element_PointerToRawData element = Some c \<and>
          Translate pe (cv_info_addr c + offsetof_CvInfoPdb70_pdb_age) = Some a_age \<and>
          Translate pe (cv_info_addr c + offsetof_CvInfoPdb70_signature) = Some a_guid \<and>
          pdb_added = [pdb_age_entry a_age, pdb_guid_entry a_guid])))"
    using MarkPdbAgeAndGuid_Inr [OF s4] cv
    by (fastforce simp: pdb_age_entry_def pdb_guid_entry_def)
  then obtain pdb_added where e4: "space4 = space3 @ pdb_added"
    and d4: "(input_pdb zt = [] \<and> pdb_added = []) \<or>
      (input_pdb zt \<noteq> [] \<and>
       (\<exists>debug_dir element c a_age a_guid.
          debug_directory nt = Some debug_dir \<and>
          element \<in> set (debug_directory_elements debug_dir) \<and>
          element_Type element = IMAGE_DEBUG_TYPE_CODEVIEW \<and>
          element_PointerToRawData element = Some c \<and>
          Translate pe (cv_info_addr c + offsetof_CvInfoPdb70_pdb_age) = Some a_age \<and>
          Translate pe (cv_info_addr c + offsetof_CvInfoPdb70_signature) = Some a_guid \<and>
          pdb_added = [pdb_age_entry a_age, pdb_guid_entry a_guid]))"
    by blast
  from MarkData_Inr [OF s5] obtain a_checksum where
    t5: "Translate pe (nt_headers_addr nt + offsetof_IMAGE_NT_HEADERS_OptionalHeader_CheckSum)
           = Some a_checksum"
    and e5: "space5 = space4 @ [checksum_entry a_checksum]"
    by (auto simp: checksum_entry_def)
  from MarkData_Inr [OF s6] obtain a_timestamp where
    t6: "Translate pe (nt_headers_addr nt + offsetof_IMAGE_NT_HEADERS_FileHeader_TimeDateStamp)
           = Some a_timestamp"
    and e6: "space6 = space5 @ [pe_timestamp_entry a_timestamp]"
    by (auto simp: pe_timestamp_entry_def)
  have "zt' = zt\<lparr>pe_file_addr_space :=
            pe_file_addr_space zt
            @ directory_entries pe (export_directory nt)
                offsetof_IMAGE_EXPORT_DIRECTORY_TimeDateStamp ''Export Directory''
            @ directory_entries pe (resource_directory nt)
                offsetof_IMAGE_RESOURCE_DIRECTORY_TimeDateStamp ''Resource Directory''
            @ debug_added @ pdb_added
            @ [checksum_entry a_checksum, pe_timestamp_entry a_timestamp]\<rparr>"
    by (simp add: z e6 e5 e4 e3 e2 e1)
  with nt d3 d4 t5 t6 show ?thesis by blast
qed



subsection \<open>An image\<close>

text \<open>
  An image with no export and no resource directory, and a debug directory of one
  CodeView element. Relative addresses are file offsets.
\<close>

definition example_image :: PEImage where
  "example_image =
     \<lparr>dos_header_init = True,
      nt_headers = Some
        \<lparr>nt_headers_addr = 0,
         export_directory = NoReference 0,
         resource_directory = NoReference 0,
         debug_directory = Some
           \<lparr>debug_directory_addr = 116,
            debug_directory_elements =
              [\<lparr>element_Type = 2, element_PointerToRawData = Some \<lparr>cv_info_addr = 92\<rparr>\<rparr>]\<rparr>\<rparr>,
      Translate = Some\<rparr>"

section \<open>The constant timestamp\<close>

text \<open>
  The seconds from the Unix epoch to the first midnight (UTC) of a year, in the Gregorian
  calendar: the date the constructor's comment gives for its constant.
\<close>

definition is_leap_year :: "nat \<Rightarrow> bool" where
  "is_leap_year y = ((y mod 4 = 0 \<and> y mod 100 \<noteq> 0) \<or> y mod 400 = 0)"

definition days_in_year :: "nat \<Rightarrow> nat" where
  "days_in_year y = (if is_leap_year y then 366 else 365)"

definition unix_time_of_new_year :: "nat \<Rightarrow> nat" where
  "unix_time_of_new_year y = 86400 * sum_list (map days_in_year [1970..<y])"

lemma unix_time_of_new_year_2010: "unix_time_of_new_year 2010 = 1262304000"
  by (simp add: unix_time_of_new_year_def days_in_year_def is_leap_year_def)


text \<open>
  Claim C3, as the code has it. The constant the constructor stores in
  \<^verbatim>\<open>timestamp_data_\<close> is 1,262,304,000, the seconds from the Unix epoch to Jan 1, 2010
  00:00:00 UTC. As a 4-byte value it is \<open>0x4B3D3B00\<close>, it is not zero, and its bytes in
  memory, which every timestamp entry of the patch space points to, are
  \<open>00 3B 3D 4B\<close>.
\<close>

theorem ZapTimestamp_constant_timestamp:
  "timestamp_data (ZapTimestamp_ctor uninitialized) = 0x4B3D3B00 \<and>
   unat (timestamp_data (ZapTimestamp_ctor uninitialized)) = 1262304000 \<and>
   unat (timestamp_data (ZapTimestamp_ctor uninitialized)) = unix_time_of_new_year 2010 \<and>
   timestamp_data (ZapTimestamp_ctor uninitialized) \<noteq> 0 \<and>
   pointed_bytes (ZapTimestamp_ctor uninitialized) addr_timestamp_data
     = Some [0x00, 0x3B, 0x3D, 0x4B]"
  by (simp add: ZapTimestamp_ctor_def unix_time_of_new_year_2010 pointed_bytes_def le_bytes32_def)

theorem ZapTimestamp_constant_timestamp_witness:
  "unat (timestamp_data (ZapTimestamp_ctor [])) = 86400 * 14610 \<and>
   pointed_bytes (ZapTimestamp_ctor []) addr_timestamp_data = Some [0x00, 0x3B, 0x3D, 0x4B]"
  using ZapTimestamp_constant_timestamp [of "[]"] by simp


text \<open>
  The hexadecimal value of the claim is another number: \<open>0x4B3D8200\<close> is 1,262,322,176,
  which is 18,176 seconds later.
\<close>

theorem ZapTimestamp_timestamp_is_not_0x4B3D8200:
  "timestamp_data (ZapTimestamp_ctor []) \<noteq> 0x4B3D8200 \<and>
   unat (0x4B3D8200 :: uint32) = 1262322176"
  by (simp add: ZapTimestamp_ctor_def)


section \<open>The scan of the PE file\<close>

definition directory_resolved :: "PEImage \<Rightarrow> DataDirectoryRef \<Rightarrow> bool" where
  "directory_resolved pe_file data_dir_ref =
     (case data_dir_ref of
        NoReference VirtualAddress \<Rightarrow> True
      | Reference None \<Rightarrow> False
      | Reference (Some data_dir) \<Rightarrow> Translate pe_file (directory_addr data_dir) \<noteq> None)"

lemma MarkDataDirectoryTimestamps_resolved:
  "MarkDataDirectoryTimestamps dchecks pe ref off nm p space = Inr space' \<Longrightarrow>
   directory_resolved pe ref"
  by (auto simp: MarkDataDirectoryTimestamps_def directory_resolved_def
           split: DataDirectoryRef.splits option.splits)


lemma MarkPeFileRanges_resolved:
  assumes "MarkPeFileRanges dchecks pe zt = Inr zt'" "nt_headers pe = Some nt"
  shows "directory_resolved pe (export_directory nt) \<and>
         directory_resolved pe (resource_directory nt)"
proof -
  from assms obtain space1 space2 where
    s1: "MarkDataDirectoryTimestamps dchecks pe (export_directory nt)
            offsetof_IMAGE_EXPORT_DIRECTORY_TimeDateStamp ''Export Directory''
            addr_timestamp_data (pe_file_addr_space zt) = Inr space1"
    and s2: "MarkDataDirectoryTimestamps dchecks pe (resource_directory nt)
            offsetof_IMAGE_RESOURCE_DIRECTORY_TimeDateStamp ''Resource Directory''
            addr_timestamp_data space1 = Inr space2"
    by (auto simp: MarkPeFileRanges_def split: if_splits sum.splits prod.splits)
  from MarkDataDirectoryTimestamps_resolved [OF s1] MarkDataDirectoryTimestamps_resolved [OF s2]
  show ?thesis by simp
qed

lemma directory_entries_cases:
  "directory_entries pe ref off nm = [] \<or>
   (\<exists>d a. ref = Reference (Some d) \<and> directory_TimeDateStamp d \<noteq> 0 \<and>
      Translate pe (directory_addr d) = Some a \<and>
      directory_entries pe ref off nm =
        [(\<lparr>range_start = a + off, range_size = sizeof_DWORD\<rparr>,
          \<lparr>patch_data = addr_timestamp_data, patch_name = data_directory_name nm\<rparr>)])"
  by (auto simp: directory_entries_def split: DataDirectoryRef.splits option.splits)

lemma directory_entries_nonempty_iff:
  "directory_resolved pe ref \<Longrightarrow>
   directory_entries pe ref off nm \<noteq> [] \<longleftrightarrow>
     (\<exists>d. ref = Reference (Some d) \<and> directory_TimeDateStamp d \<noteq> 0)"
  by (auto simp: directory_entries_def directory_resolved_def
           split: DataDirectoryRef.splits option.splits)

lemma scan_names_distinct:
  "data_directory_name ''Export Directory'' \<noteq> data_directory_name ''Resource Directory''"
  "data_directory_name ''Resource Directory'' \<noteq> data_directory_name ''Export Directory''"
  "debug_directory_name k \<noteq> data_directory_name ''Export Directory''"
  "debug_directory_name k \<noteq> data_directory_name ''Resource Directory''"
  "patch_name (snd (pdb_age_entry a)) \<noteq> data_directory_name ''Export Directory''"
  "patch_name (snd (pdb_guid_entry a)) \<noteq> data_directory_name ''Export Directory''"
  "patch_name (snd (checksum_entry a)) \<noteq> data_directory_name ''Export Directory''"
  "patch_name (snd (pe_timestamp_entry a)) \<noteq> data_directory_name ''Export Directory''"
  "patch_name (snd (pdb_age_entry a)) \<noteq> data_directory_name ''Resource Directory''"
  "patch_name (snd (pdb_guid_entry a)) \<noteq> data_directory_name ''Resource Directory''"
  "patch_name (snd (checksum_entry a)) \<noteq> data_directory_name ''Resource Directory''"
  "patch_name (snd (pe_timestamp_entry a)) \<noteq> data_directory_name ''Resource Directory''"
  by (simp_all add: data_directory_name_def debug_directory_name_def pdb_age_entry_def
        pdb_guid_entry_def checksum_entry_def pe_timestamp_entry_def)

lemma MarkPeFileRanges_named_entries:
  assumes scan: "MarkPeFileRanges dchecks pe zt = Inr zt'"
    and empty: "pe_file_addr_space zt = []"
  shows "\<exists>nt. nt_headers pe = Some nt \<and>
     directory_resolved pe (export_directory nt) \<and>
     directory_resolved pe (resource_directory nt) \<and>
     filter (\<lambda>e. patch_name (snd e) = data_directory_name ''Export Directory'')
         (pe_file_addr_space zt')
       = directory_entries pe (export_directory nt)
           offsetof_IMAGE_EXPORT_DIRECTORY_TimeDateStamp ''Export Directory'' \<and>
     filter (\<lambda>e. patch_name (snd e) = data_directory_name ''Resource Directory'')
         (pe_file_addr_space zt')
       = directory_entries pe (resource_directory nt)
           offsetof_IMAGE_RESOURCE_DIRECTORY_TimeDateStamp ''Resource Directory''"
proof -
  from MarkPeFileRanges_Inr [OF scan]
  obtain nt debug_added pdb_added a_checksum a_timestamp where
    nt: "nt_headers pe = Some nt" and
    z: "zt' = zt\<lparr>pe_file_addr_space :=
            pe_file_addr_space zt
            @ directory_entries pe (export_directory nt)
                offsetof_IMAGE_EXPORT_DIRECTORY_TimeDateStamp ''Export Directory''
            @ directory_entries pe (resource_directory nt)
                offsetof_IMAGE_RESOURCE_DIRECTORY_TimeDateStamp ''Resource Directory''
            @ debug_added @ pdb_added
            @ [checksum_entry a_checksum, pe_timestamp_entry a_timestamp]\<rparr>"
    and dbg: "\<forall>e \<in> set debug_added. patch_data (snd e) = addr_timestamp_data \<and>
        range_size (fst e) = sizeof_DWORD \<and> (\<exists>k. patch_name (snd e) = debug_directory_name k)"
    and pdb: "(input_pdb zt = [] \<and> pdb_added = []) \<or>
      (input_pdb zt \<noteq> [] \<and>
       (\<exists>debug_dir element cv a_age a_guid.
          debug_directory nt = Some debug_dir \<and>
          element \<in> set (debug_directory_elements debug_dir) \<and>
          element_Type element = IMAGE_DEBUG_TYPE_CODEVIEW \<and>
          element_PointerToRawData element = Some cv \<and>
          Translate pe (cv_info_addr cv + offsetof_CvInfoPdb70_pdb_age) = Some a_age \<and>
          Translate pe (cv_info_addr cv + offsetof_CvInfoPdb70_signature) = Some a_guid \<and>
          pdb_added = [pdb_age_entry a_age, pdb_guid_entry a_guid]))"
    by blast
  let ?E = "directory_entries pe (export_directory nt)
                offsetof_IMAGE_EXPORT_DIRECTORY_TimeDateStamp ''Export Directory''"
  let ?R = "directory_entries pe (resource_directory nt)
                offsetof_IMAGE_RESOURCE_DIRECTORY_TimeDateStamp ''Resource Directory''"
  have fE: "filter (\<lambda>e. patch_name (snd e) = data_directory_name ''Export Directory'') ?E = ?E"
    and fE': "filter (\<lambda>e. patch_name (snd e) = data_directory_name ''Resource Directory'') ?E = []"
    using directory_entries_cases [of pe "export_directory nt"
        offsetof_IMAGE_EXPORT_DIRECTORY_TimeDateStamp "''Export Directory''"]
    by (auto simp: scan_names_distinct)
  have fR: "filter (\<lambda>e. patch_name (snd e) = data_directory_name ''Resource Directory'') ?R = ?R"
    and fR': "filter (\<lambda>e. patch_name (snd e) = data_directory_name ''Export Directory'') ?R = []"
    using directory_entries_cases [of pe "resource_directory nt"
        offsetof_IMAGE_RESOURCE_DIRECTORY_TimeDateStamp "''Resource Directory''"]
    by (auto simp: scan_names_distinct)
  have fD: "filter (\<lambda>e. patch_name (snd e) = data_directory_name ''Export Directory'') debug_added = []"
    "filter (\<lambda>e. patch_name (snd e) = data_directory_name ''Resource Directory'') debug_added = []"
  proof -
    have "patch_name (snd e) \<noteq> data_directory_name ''Export Directory'' \<and>
          patch_name (snd e) \<noteq> data_directory_name ''Resource Directory''"
      if "e \<in> set debug_added" for e
    proof -
      from dbg that obtain k where "patch_name (snd e) = debug_directory_name k" by blast
      then show ?thesis by (simp add: scan_names_distinct)
    qed
    then show
      "filter (\<lambda>e. patch_name (snd e) = data_directory_name ''Export Directory'') debug_added = []"
      "filter (\<lambda>e. patch_name (snd e) = data_directory_name ''Resource Directory'') debug_added = []"
      by (simp_all add: filter_empty_conv)
  qed
  have "pdb_added = [] \<or>
      (\<exists>a_age a_guid. pdb_added = [pdb_age_entry a_age, pdb_guid_entry a_guid])"
    using pdb by blast
  then have fP: "filter (\<lambda>e. patch_name (snd e) = data_directory_name ''Export Directory'') pdb_added = []"
    "filter (\<lambda>e. patch_name (snd e) = data_directory_name ''Resource Directory'') pdb_added = []"
    by (auto simp: scan_names_distinct)
  have fT: "filter (\<lambda>e. patch_name (snd e) = data_directory_name ''Export Directory'')
              [checksum_entry a_checksum, pe_timestamp_entry a_timestamp] = []"
    "filter (\<lambda>e. patch_name (snd e) = data_directory_name ''Resource Directory'')
              [checksum_entry a_checksum, pe_timestamp_entry a_timestamp] = []"
    by (simp_all add: scan_names_distinct)
  from MarkPeFileRanges_resolved [OF scan nt] nt z empty fE fE' fR fR' fD fP fT
  show ?thesis by simp
qed


subsection \<open>Two scans\<close>

text \<open>
  \<open>example_image\<close> scanned for an object that has a PDB, and an image with an export
  directory whose \<^verbatim>\<open>TimeDateStamp\<close> is set, scanned for an object that has none.
\<close>

definition example_object_before_scan :: ZapTimestamp where
  "example_object_before_scan = (ZapTimestamp_ctor [])\<lparr>input_pdb := ''image.pdb''\<rparr>"

definition example_scanned_space :: PatchAddressSpace where
  "example_scanned_space =
     [(\<lparr>range_start = 120, range_size = 4\<rparr>,
       \<lparr>patch_data = addr_timestamp_data, patch_name = ''Debug Directory 0 Timestamp''\<rparr>),
      pdb_age_entry 112,
      pdb_guid_entry 96,
      checksum_entry 88,
      pe_timestamp_entry 8]"

definition image_with_export_directory :: PEImage where
  "image_with_export_directory =
     \<lparr>dos_header_init = True,
      nt_headers = Some
        \<lparr>nt_headers_addr = 0,
         export_directory =
           Reference (Some \<lparr>directory_addr = 200, directory_TimeDateStamp = 0xDEADBEEF\<rparr>),
         resource_directory = NoReference 0,
         debug_directory = None\<rparr>,
      Translate = Some\<rparr>"

lemma MarkPeFileRanges_example_image:
  "MarkPeFileRanges dchecks example_image example_object_before_scan
     = Inr (example_object_before_scan\<lparr>pe_file_addr_space := example_scanned_space\<rparr>)"
  by (simp add: MarkPeFileRanges_def example_image_def example_object_before_scan_def
        ZapTimestamp_ctor_def MarkDataDirectoryTimestamps_def MarkData_def Insert_def
        MarkPdbAgeAndGuid_def Intersects_def range_end_def example_scanned_space_def
        pdb_age_entry_def pdb_guid_entry_def checksum_entry_def pe_timestamp_entry_def
        debug_directory_name_def decimal.simps decimal_digit_def
        IMAGE_DEBUG_TYPE_CODEVIEW_def sizeof_DWORD_def sizeof_GUID_def
        sizeof_IMAGE_DEBUG_DIRECTORY_def offsetof_IMAGE_DEBUG_DIRECTORY_TimeDateStamp_def
        offsetof_CvInfoPdb70_pdb_age_def offsetof_CvInfoPdb70_signature_def
        offsetof_IMAGE_NT_HEADERS_OptionalHeader_CheckSum_def
        offsetof_IMAGE_NT_HEADERS_FileHeader_TimeDateStamp_def)

lemma MarkPeFileRanges_image_with_export_directory:
  "MarkPeFileRanges dchecks image_with_export_directory (ZapTimestamp_ctor [])
     = Inr ((ZapTimestamp_ctor [])\<lparr>pe_file_addr_space :=
         [(\<lparr>range_start = 204, range_size = 4\<rparr>,
           \<lparr>patch_data = addr_timestamp_data, patch_name = ''Export Directory Timestamp''\<rparr>),
          checksum_entry 88,
          pe_timestamp_entry 8]\<rparr>)"
  by (simp add: MarkPeFileRanges_def image_with_export_directory_def
        ZapTimestamp_ctor_def MarkDataDirectoryTimestamps_def MarkData_def Insert_def
        MarkPdbAgeAndGuid_def Intersects_def range_end_def
        checksum_entry_def pe_timestamp_entry_def data_directory_name_def
        sizeof_DWORD_def offsetof_IMAGE_EXPORT_DIRECTORY_TimeDateStamp_def
        offsetof_IMAGE_NT_HEADERS_OptionalHeader_CheckSum_def
        offsetof_IMAGE_NT_HEADERS_FileHeader_TimeDateStamp_def)


subsection \<open>The order of the insertions\<close>

text \<open>
  Claim C5, as the code has it. In every successful scan the sentinel entry of
  \<^verbatim>\<open>OptionalHeader.CheckSum\<close> is inserted after the export, resource and debug directory
  timestamps, the age and the GUID, and is the last but one: the entry of the file
  header's \<^verbatim>\<open>TimeDateStamp\<close> is inserted after it.
\<close>

theorem MarkPeFileRanges_checksum_before_pe_timestamp:
  assumes "MarkPeFileRanges dchecks pe zt = Inr zt'"
  shows "\<exists>earlier a_checksum a_timestamp.
     pe_file_addr_space zt'
       = pe_file_addr_space zt @ earlier
           @ [checksum_entry a_checksum, pe_timestamp_entry a_timestamp] \<and>
     (\<forall>e \<in> set earlier. patch_data (snd e) = addr_timestamp_data
          \<or> patch_data (snd e) = addr_pdb_age_data \<or> patch_data (snd e) = addr_pdb_guid_data) \<and>
     patch_data (snd (checksum_entry a_checksum)) = NULL \<and>
     patch_data (snd (pe_timestamp_entry a_timestamp)) = addr_timestamp_data"
proof -
  from MarkPeFileRanges_Inr [OF assms]
  obtain nt debug_added pdb_added a_checksum a_timestamp where
    nt: "nt_headers pe = Some nt" and
    z: "zt' = zt\<lparr>pe_file_addr_space :=
            pe_file_addr_space zt
            @ directory_entries pe (export_directory nt)
                offsetof_IMAGE_EXPORT_DIRECTORY_TimeDateStamp ''Export Directory''
            @ directory_entries pe (resource_directory nt)
                offsetof_IMAGE_RESOURCE_DIRECTORY_TimeDateStamp ''Resource Directory''
            @ debug_added @ pdb_added
            @ [checksum_entry a_checksum, pe_timestamp_entry a_timestamp]\<rparr>"
    and dbg: "\<forall>e \<in> set debug_added. patch_data (snd e) = addr_timestamp_data \<and>
        range_size (fst e) = sizeof_DWORD \<and> (\<exists>k. patch_name (snd e) = debug_directory_name k)"
    and pdb: "(input_pdb zt = [] \<and> pdb_added = []) \<or>
      (input_pdb zt \<noteq> [] \<and>
       (\<exists>debug_dir element cv a_age a_guid.
          debug_directory nt = Some debug_dir \<and>
          element \<in> set (debug_directory_elements debug_dir) \<and>
          element_Type element = IMAGE_DEBUG_TYPE_CODEVIEW \<and>
          element_PointerToRawData element = Some cv \<and>
          Translate pe (cv_info_addr cv + offsetof_CvInfoPdb70_pdb_age) = Some a_age \<and>
          Translate pe (cv_info_addr cv + offsetof_CvInfoPdb70_signature) = Some a_guid \<and>
          pdb_added = [pdb_age_entry a_age, pdb_guid_entry a_guid]))"
    by blast
  define earlier where "earlier =
      directory_entries pe (export_directory nt)
          offsetof_IMAGE_EXPORT_DIRECTORY_TimeDateStamp ''Export Directory''
      @ directory_entries pe (resource_directory nt)
          offsetof_IMAGE_RESOURCE_DIRECTORY_TimeDateStamp ''Resource Directory''
      @ debug_added @ pdb_added"
  have dirs: "\<forall>e \<in> set (directory_entries pe ref off nm). patch_data (snd e) = addr_timestamp_data"
    for ref off nm
    by (auto simp: directory_entries_def split: DataDirectoryRef.splits option.splits)
  have pdbs: "\<forall>e \<in> set pdb_added.
      patch_data (snd e) = addr_pdb_age_data \<or> patch_data (snd e) = addr_pdb_guid_data"
    using pdb by (auto simp: pdb_age_entry_def pdb_guid_entry_def)
  have "\<forall>e \<in> set earlier. patch_data (snd e) = addr_timestamp_data
          \<or> patch_data (snd e) = addr_pdb_age_data \<or> patch_data (snd e) = addr_pdb_guid_data"
    unfolding earlier_def using dirs dbg pdbs by auto
  moreover have "pe_file_addr_space zt'
       = pe_file_addr_space zt @ earlier
           @ [checksum_entry a_checksum, pe_timestamp_entry a_timestamp]"
    by (simp add: z earlier_def)
  ultimately show ?thesis
    by (auto simp: checksum_entry_def pe_timestamp_entry_def)
qed

lemma example_object_before_scan_space:
  "pe_file_addr_space example_object_before_scan = []"
  by (simp add: example_object_before_scan_def ZapTimestamp_ctor_def)

theorem MarkPeFileRanges_checksum_before_pe_timestamp_witness:
  "MarkPeFileRanges True example_image example_object_before_scan
     = Inr (example_object_before_scan\<lparr>pe_file_addr_space := example_scanned_space\<rparr>) \<and>
   (\<exists>earlier a_checksum a_timestamp.
      example_scanned_space
        = earlier @ [checksum_entry a_checksum, pe_timestamp_entry a_timestamp])"
  using MarkPeFileRanges_checksum_before_pe_timestamp [OF MarkPeFileRanges_example_image [of True]]
    MarkPeFileRanges_example_image [of True]
  by (auto simp: example_object_before_scan_space)


text \<open>
  The claim that the sentinel is inserted last fails on \<open>example_image\<close>: the last entry
  inserted is the file header's timestamp, whose data pointer is not null.
\<close>

theorem MarkPeFileRanges_last_inserted_is_pe_timestamp:
  "MarkPeFileRanges True example_image example_object_before_scan
     = Inr (example_object_before_scan\<lparr>pe_file_addr_space := example_scanned_space\<rparr>) \<and>
   last example_scanned_space = pe_timestamp_entry 8 \<and>
   last example_scanned_space \<noteq> checksum_entry 88 \<and>
   patch_data (snd (last example_scanned_space)) \<noteq> NULL"
  by (simp add: MarkPeFileRanges_example_image)
     (simp add: example_scanned_space_def pe_timestamp_entry_def checksum_entry_def)


subsection \<open>The timestamps of the export and resource directories\<close>

text \<open>
  Claim C6. After a successful scan that started from an empty patch space, the space
  holds an entry named "Export Directory Timestamp" if and only if the export directory
  is referenced and its \<^verbatim>\<open>TimeDateStamp\<close> is not zero; such an entry points to the
  constant timestamp and covers the four bytes of the field. The same holds for the
  resource directory. A directory that is absent (no reference, virtual address 0) adds
  nothing and \<^verbatim>\<open>MarkDataDirectoryTimestamps\<close> returns true.
\<close>

theorem MarkPeFileRanges_directory_timestamps:
  "(MarkPeFileRanges dchecks pe zt = Inr zt' \<and> pe_file_addr_space zt = [] \<longrightarrow>
     (\<exists>nt. nt_headers pe = Some nt \<and>
        ((\<exists>e \<in> set (pe_file_addr_space zt'). patch_name (snd e) = ''Export Directory Timestamp'')
           \<longleftrightarrow> (\<exists>d. export_directory nt = Reference (Some d) \<and> directory_TimeDateStamp d \<noteq> 0)) \<and>
        (\<forall>e \<in> set (pe_file_addr_space zt').
           patch_name (snd e) = ''Export Directory Timestamp'' \<longrightarrow>
           patch_data (snd e) = addr_timestamp_data \<and>
           (\<exists>d a. export_directory nt = Reference (Some d) \<and>
              Translate pe (directory_addr d) = Some a \<and>
              fst e = \<lparr>range_start = a + offsetof_IMAGE_EXPORT_DIRECTORY_TimeDateStamp,
                       range_size = sizeof_DWORD\<rparr>)) \<and>
        ((\<exists>e \<in> set (pe_file_addr_space zt'). patch_name (snd e) = ''Resource Directory Timestamp'')
           \<longleftrightarrow> (\<exists>d. resource_directory nt = Reference (Some d) \<and> directory_TimeDateStamp d \<noteq> 0)) \<and>
        (\<forall>e \<in> set (pe_file_addr_space zt').
           patch_name (snd e) = ''Resource Directory Timestamp'' \<longrightarrow>
           patch_data (snd e) = addr_timestamp_data \<and>
           (\<exists>d a. resource_directory nt = Reference (Some d) \<and>
              Translate pe (directory_addr d) = Some a \<and>
              fst e = \<lparr>range_start = a + offsetof_IMAGE_RESOURCE_DIRECTORY_TimeDateStamp,
                       range_size = sizeof_DWORD\<rparr>)))) \<and>
   MarkDataDirectoryTimestamps dchecks pe (NoReference 0) off nm p space = Inr space \<and>
   pointed_bytes zt addr_timestamp_data = Some (le_bytes32 (timestamp_data zt))"
proof -
  have names: "data_directory_name ''Export Directory'' = ''Export Directory Timestamp''"
    "data_directory_name ''Resource Directory'' = ''Resource Directory Timestamp''"
    by (simp_all add: data_directory_name_def)
  have entry: "((\<exists>e \<in> set space'. patch_name (snd e) = data_directory_name nm')
           \<longleftrightarrow> (\<exists>d. ref = Reference (Some d) \<and> directory_TimeDateStamp d \<noteq> 0)) \<and>
        (\<forall>e \<in> set space'. patch_name (snd e) = data_directory_name nm' \<longrightarrow>
           patch_data (snd e) = addr_timestamp_data \<and>
           (\<exists>d a. ref = Reference (Some d) \<and> Translate pe (directory_addr d) = Some a \<and>
              fst e = \<lparr>range_start = a + off', range_size = sizeof_DWORD\<rparr>))"
    if res: "directory_resolved pe ref"
      and f: "filter (\<lambda>e. patch_name (snd e) = data_directory_name nm') space'
                = directory_entries pe ref off' nm'"
    for space' ref off' nm'
  proof -
    have iff: "(\<exists>e \<in> set space'. patch_name (snd e) = data_directory_name nm')
        \<longleftrightarrow> directory_entries pe ref off' nm' \<noteq> []"
      unfolding f [symmetric] by (simp add: filter_empty_conv)
    have mem: "e \<in> set (directory_entries pe ref off' nm')"
      if "e \<in> set space'" "patch_name (snd e) = data_directory_name nm'" for e
      unfolding f [symmetric] using that by simp
    have props: "patch_data (snd e) = addr_timestamp_data \<and>
           (\<exists>d a. ref = Reference (Some d) \<and> Translate pe (directory_addr d) = Some a \<and>
              fst e = \<lparr>range_start = a + off', range_size = sizeof_DWORD\<rparr>)"
      if "e \<in> set (directory_entries pe ref off' nm')" for e
      using that directory_entries_cases [of pe ref off' nm'] by auto
    from iff directory_entries_nonempty_iff [OF res, of off' nm'] mem props
    show ?thesis by blast
  qed
  have scan: "\<exists>nt. nt_headers pe = Some nt \<and>
        ((\<exists>e \<in> set (pe_file_addr_space zt'). patch_name (snd e) = ''Export Directory Timestamp'')
           \<longleftrightarrow> (\<exists>d. export_directory nt = Reference (Some d) \<and> directory_TimeDateStamp d \<noteq> 0)) \<and>
        (\<forall>e \<in> set (pe_file_addr_space zt').
           patch_name (snd e) = ''Export Directory Timestamp'' \<longrightarrow>
           patch_data (snd e) = addr_timestamp_data \<and>
           (\<exists>d a. export_directory nt = Reference (Some d) \<and>
              Translate pe (directory_addr d) = Some a \<and>
              fst e = \<lparr>range_start = a + offsetof_IMAGE_EXPORT_DIRECTORY_TimeDateStamp,
                       range_size = sizeof_DWORD\<rparr>)) \<and>
        ((\<exists>e \<in> set (pe_file_addr_space zt'). patch_name (snd e) = ''Resource Directory Timestamp'')
           \<longleftrightarrow> (\<exists>d. resource_directory nt = Reference (Some d) \<and> directory_TimeDateStamp d \<noteq> 0)) \<and>
        (\<forall>e \<in> set (pe_file_addr_space zt').
           patch_name (snd e) = ''Resource Directory Timestamp'' \<longrightarrow>
           patch_data (snd e) = addr_timestamp_data \<and>
           (\<exists>d a. resource_directory nt = Reference (Some d) \<and>
              Translate pe (directory_addr d) = Some a \<and>
              fst e = \<lparr>range_start = a + offsetof_IMAGE_RESOURCE_DIRECTORY_TimeDateStamp,
                       range_size = sizeof_DWORD\<rparr>))"
    if ok: "MarkPeFileRanges dchecks pe zt = Inr zt'" and empty: "pe_file_addr_space zt = []"
  proof -
    from MarkPeFileRanges_named_entries [OF ok empty] obtain nt where
      nt: "nt_headers pe = Some nt"
      and r1: "directory_resolved pe (export_directory nt)"
      and r2: "directory_resolved pe (resource_directory nt)"
      and f1: "filter (\<lambda>e. patch_name (snd e) = data_directory_name ''Export Directory'')
         (pe_file_addr_space zt')
       = directory_entries pe (export_directory nt)
           offsetof_IMAGE_EXPORT_DIRECTORY_TimeDateStamp ''Export Directory''"
      and f2: "filter (\<lambda>e. patch_name (snd e) = data_directory_name ''Resource Directory'')
         (pe_file_addr_space zt')
       = directory_entries pe (resource_directory nt)
           offsetof_IMAGE_RESOURCE_DIRECTORY_TimeDateStamp ''Resource Directory''"
      by blast
    from nt entry [OF r1 f1, unfolded names] entry [OF r2 f2, unfolded names]
    show ?thesis by blast
  qed
  have absent: "MarkDataDirectoryTimestamps dchecks pe (NoReference 0) off nm p space = Inr space"
    by (simp add: MarkDataDirectoryTimestamps_def)
  have bytes: "pointed_bytes zt addr_timestamp_data = Some (le_bytes32 (timestamp_data zt))"
    by (simp add: pointed_bytes_def)
  from scan absent bytes show ?thesis by blast
qed

theorem MarkPeFileRanges_directory_timestamps_witness:
  "MarkPeFileRanges True image_with_export_directory (ZapTimestamp_ctor [])
     = Inr ((ZapTimestamp_ctor [])\<lparr>pe_file_addr_space :=
         [(\<lparr>range_start = 204, range_size = 4\<rparr>,
           \<lparr>patch_data = addr_timestamp_data, patch_name = ''Export Directory Timestamp''\<rparr>),
          checksum_entry 88,
          pe_timestamp_entry 8]\<rparr>) \<and>
   pe_file_addr_space (ZapTimestamp_ctor []) = [] \<and>
   (\<exists>nt. nt_headers image_with_export_directory = Some nt \<and>
      (\<exists>d. export_directory nt = Reference (Some d) \<and> directory_TimeDateStamp d \<noteq> 0) \<and>
      \<not> (\<exists>d. resource_directory nt = Reference (Some d) \<and> directory_TimeDateStamp d \<noteq> 0))"
proof -
  let ?space = "[(\<lparr>range_start = 204, range_size = 4\<rparr>,
           \<lparr>patch_data = addr_timestamp_data, patch_name = ''Export Directory Timestamp''\<rparr>),
          checksum_entry 88,
          pe_timestamp_entry 8]"
  let ?zt' = "(ZapTimestamp_ctor [])\<lparr>pe_file_addr_space := ?space\<rparr>"
  have ok: "MarkPeFileRanges True image_with_export_directory (ZapTimestamp_ctor []) = Inr ?zt'"
    by (rule MarkPeFileRanges_image_with_export_directory)
  have e: "pe_file_addr_space (ZapTimestamp_ctor []) = []"
    by (simp add: ZapTimestamp_ctor_def)
  from MarkPeFileRanges_directory_timestamps [of True image_with_export_directory "ZapTimestamp_ctor []" ?zt'] ok e
  obtain nt where nt: "nt_headers image_with_export_directory = Some nt"
    and ex: "(\<exists>e \<in> set (pe_file_addr_space ?zt'). patch_name (snd e) = ''Export Directory Timestamp'')
           \<longleftrightarrow> (\<exists>d. export_directory nt = Reference (Some d) \<and> directory_TimeDateStamp d \<noteq> 0)"
    and re: "(\<exists>e \<in> set (pe_file_addr_space ?zt'). patch_name (snd e) = ''Resource Directory Timestamp'')
           \<longleftrightarrow> (\<exists>d. resource_directory nt = Reference (Some d) \<and> directory_TimeDateStamp d \<noteq> 0)"
    by blast
  have "\<exists>e \<in> set (pe_file_addr_space ?zt'). patch_name (snd e) = ''Export Directory Timestamp''"
    by simp
  with ex have x: "\<exists>d. export_directory nt = Reference (Some d) \<and> directory_TimeDateStamp d \<noteq> 0"
    by blast
  have "\<not> (\<exists>e \<in> set (pe_file_addr_space ?zt'). patch_name (snd e) = ''Resource Directory Timestamp'')"
    by (simp add: checksum_entry_def pe_timestamp_entry_def)
  with re have r: "\<not> (\<exists>d. resource_directory nt = Reference (Some d) \<and> directory_TimeDateStamp d \<noteq> 0)"
    by blast
  from ok e nt x r show ?thesis by blast
qed


section \<open>The GUID and the patcher on a small file\<close>

text \<open>
  A file of eight bytes and an object whose patch space marks the bytes at 4 and 5 (the
  GUID, inserted first) and at 0 and 1 (a timestamp). \<open>file_with_seek_fault\<close> is the
  same file on a medium that refuses the seek to position 6; \<open>file_with_write_limit\<close>
  takes no byte from position 5 on.
\<close>

definition example_patch_space :: PatchAddressSpace where
  "example_patch_space =
     [(\<lparr>range_start = 4, range_size = 2\<rparr>,
       \<lparr>patch_data = addr_pdb_guid_data, patch_name = ''PDB GUID''\<rparr>),
      (\<lparr>range_start = 0, range_size = 2\<rparr>,
       \<lparr>patch_data = addr_timestamp_data, patch_name = ''PE Timestamp''\<rparr>)]"

definition example_object :: ZapTimestamp where
  "example_object =
     (ZapTimestamp_ctor [])\<lparr>input_pdb := ''a.pdb'', pe_file_addr_space := example_patch_space\<rparr>"

definition example_file :: FILE where
  "example_file =
     \<lparr>file_contents = [1, 2, 3, 4, 5, 6, 7, 8], file_pos = 0, seek_faults = [],
      write_limit = None\<rparr>"

definition file_with_seek_fault :: FILE where
  "file_with_seek_fault = example_file\<lparr>seek_faults := [6]\<rparr>"

definition file_with_write_limit :: FILE where
  "file_with_write_limit = example_file\<lparr>write_limit := Some 5\<rparr>"

lemma example_unmarked:
  "unmarked_bytes (file_contents example_file) (map fst example_patch_space) = [3, 4, 7, 8]"
  by (simp add: unmarked_bytes_def unmarked_between_def marked_def example_file_def
        example_patch_space_def range_end_def upt_rec [of 0] upt_rec [of 1] upt_rec [of 2]
        upt_rec [of 3] upt_rec [of 4] upt_rec [of 5] upt_rec [of 6] upt_rec [of 7]
        upt_rec [of 8])


text \<open>
  Claim C1. When the seeks succeed, the ranges of the patch space are pairwise disjoint
  and not empty (the invariant of the address space) and lie in the file, and the
  object has a PDB, \<^verbatim>\<open>CalculatePdbGuid\<close> returns true and \<^verbatim>\<open>pdb_guid_data_\<close> is the
  digest of the bytes of the file that no range covers, in ascending order. The patch
  space is unchanged, and what an entry that points to \<^verbatim>\<open>pdb_guid_data_\<close> (the "PDB
  GUID" entry) stands for is that digest.
\<close>

theorem CalculatePdbGuid_digest_of_unmarked_bytes:
  assumes "seek_faults pe_file = []"
    and "pairwise_disjoint (map fst (pe_file_addr_space zt))"
    and "\<forall>r \<in> set (map fst (pe_file_addr_space zt)).
            range_end r \<le> length (file_contents pe_file)"
    and "input_pdb zt \<noteq> []"
  shows "\<exists>zt'. CalculatePdbGuid dchecks md5 (Some pe_file) zt = Inr zt' \<and>
     pdb_guid_data zt'
       = md5 (unmarked_bytes (file_contents pe_file) (map fst (pe_file_addr_space zt))) \<and>
     pe_file_addr_space zt' = pe_file_addr_space zt \<and>
     (\<forall>entry \<in> set (pe_file_addr_space zt').
        patch_data (snd entry) = addr_pdb_guid_data \<longrightarrow>
        pointed_bytes zt' (patch_data (snd entry))
          = Some (md5 (unmarked_bytes (file_contents pe_file)
                         (map fst (pe_file_addr_space zt)))))"
  using CalculatePdbGuid_correct [OF assms, of dchecks md5]
  by (simp add: pointed_bytes_def)

theorem CalculatePdbGuid_digest_of_unmarked_bytes_witness:
  "seek_faults example_file = [] \<and>
   pairwise_disjoint (map fst (pe_file_addr_space example_object)) \<and>
   list_all (\<lambda>r. range_end r \<le> length (file_contents example_file))
     (map fst (pe_file_addr_space example_object)) \<and>
   input_pdb example_object \<noteq> [] \<and>
   CalculatePdbGuid True (\<lambda>bs. bs) (Some example_file) example_object
     = Inr (example_object\<lparr>pdb_guid_data := [3, 4, 7, 8]\<rparr>)"
proof -
  have h1: "seek_faults example_file = []" by (simp add: example_file_def)
  have h2: "pairwise_disjoint (map fst (pe_file_addr_space example_object))"
    by (simp add: example_object_def example_patch_space_def Intersects_def range_end_def)
  have h3: "\<forall>r \<in> set (map fst (pe_file_addr_space example_object)).
            range_end r \<le> length (file_contents example_file)"
    by (simp add: example_object_def example_patch_space_def range_end_def example_file_def)
  have h4: "input_pdb example_object \<noteq> []" by (simp add: example_object_def)
  have sp: "pe_file_addr_space example_object = example_patch_space"
    by (simp add: example_object_def)
  from CalculatePdbGuid_digest_of_unmarked_bytes [OF h1 h2 h3 h4, of True "\<lambda>bs. bs"]
  obtain zt' where z: "CalculatePdbGuid True (\<lambda>bs. bs) (Some example_file) example_object = Inr zt'"
    "pdb_guid_data zt' = [3, 4, 7, 8]"
    by (auto simp: sp example_unmarked)
  from z(1) have "zt' = example_object\<lparr>pdb_guid_data := pdb_guid_data zt'\<rparr>"
    by (auto simp: CalculatePdbGuid_def Let_def split: if_splits sum.splits prod.splits)
  with z h1 h2 h3 h4 show ?thesis by (simp add: list_all_iff)
qed


text \<open>
  Claim C9 fails on the code. On \<open>file_with_seek_fault\<close> the seek past the second marked
  range fails. Without \<^verbatim>\<open>DCHECK\<close>s \<^verbatim>\<open>CalculatePdbGuid\<close> goes on, hashes the marked bytes
  5 and 6 in place of 7 and 8, and returns true; with them it stops at the final
  \<^verbatim>\<open>DCHECK_EQ\<close> on the file position. In neither build does it return false.
\<close>

theorem CalculatePdbGuid_ignores_seek_failure:
  "fseek_CUR (file_with_seek_fault\<lparr>file_pos := 4\<rparr>) 2
     = (False, file_with_seek_fault\<lparr>file_pos := 4\<rparr>) \<and>
   CalculatePdbGuid False md5 (Some file_with_seek_fault) example_object
     = Inr (example_object\<lparr>pdb_guid_data := md5 [3, 4, 5, 6]\<rparr>) \<and>
   CalculatePdbGuid True md5 (Some file_with_seek_fault) example_object = Inl DcheckFailed \<and>
   unmarked_bytes (file_contents file_with_seek_fault) (map fst example_patch_space)
     = [3, 4, 7, 8]"
proof -
  have "fseek_CUR (file_with_seek_fault\<lparr>file_pos := 4\<rparr>) 2
     = (False, file_with_seek_fault\<lparr>file_pos := 4\<rparr>)"
    by (simp add: CalculatePdbGuid_def example_object_def example_patch_space_def
          file_with_seek_fault_def example_file_def
          fseek_END_def fseek_SET_def fseek_CUR_def fseek_to_def ftell_def in_order_def
          Md5Consume_def Md5Consume_loop.simps fread_def MD5Init_def MD5Update_def MD5Final_def
          range_end_def ZapTimestamp_ctor_def)
  moreover have "CalculatePdbGuid False md5 (Some file_with_seek_fault) example_object
     = Inr (example_object\<lparr>pdb_guid_data := md5 [3, 4, 5, 6]\<rparr>)"
    by (simp add: CalculatePdbGuid_def example_object_def example_patch_space_def
          file_with_seek_fault_def example_file_def
          fseek_END_def fseek_SET_def fseek_CUR_def fseek_to_def ftell_def in_order_def
          Md5Consume_def Md5Consume_loop.simps fread_def MD5Init_def MD5Update_def MD5Final_def
          range_end_def ZapTimestamp_ctor_def)
  moreover have "CalculatePdbGuid True md5 (Some file_with_seek_fault) example_object
     = Inl DcheckFailed"
    by (simp add: CalculatePdbGuid_def example_object_def example_patch_space_def
          file_with_seek_fault_def example_file_def
          fseek_END_def fseek_SET_def fseek_CUR_def fseek_to_def ftell_def in_order_def
          Md5Consume_def Md5Consume_loop.simps fread_def MD5Init_def MD5Update_def MD5Final_def
          range_end_def ZapTimestamp_ctor_def)
  moreover have "unmarked_bytes (file_contents file_with_seek_fault) (map fst example_patch_space)
     = [3, 4, 7, 8]"
    using example_unmarked by (simp add: file_with_seek_fault_def)
  ultimately show ?thesis by blast
qed


text \<open>
  Claim C4 fails on the code. On \<open>file_with_write_limit\<close> the write of the two bytes at
  4 stores one byte, and \<^verbatim>\<open>UpdateFileInPlace\<close> returns true.
\<close>

theorem UpdateFileInPlace_ignores_short_write:
  "fwrite (take 2 (pdb_guid_data (example_object\<lparr>pdb_guid_data := [9, 9]\<rparr>)))
      (file_with_write_limit\<lparr>file_contents := [0, 59, 3, 4, 5, 6, 7, 8], file_pos := 4\<rparr>)
     = (1, file_with_write_limit\<lparr>file_contents := [0, 59, 3, 4, 9, 6, 7, 8], file_pos := 5\<rparr>) \<and>
   UpdateFileInPlace (example_object\<lparr>pdb_guid_data := [9, 9]\<rparr>) (Some file_with_write_limit)
       example_patch_space
     = Inr (file_with_write_limit\<lparr>file_contents := [0, 59, 3, 4, 9, 6, 7, 8], file_pos := 5\<rparr>)"
  by (simp add: UpdateFileInPlace_def example_object_def example_patch_space_def
          file_with_write_limit_def example_file_def pointed_bytes_def
          fseek_SET_def fseek_to_def in_order_def fwrite_def Let_def le_bytes32_def
          ZapTimestamp_ctor_def)

section \<open>Rewriting the PDB\<close>











section \<open>Writing the outputs\<close>











subsection \<open>What the rewriting leaves in the two headers\<close>

































subsection \<open>A PDB of six streams\<close>















subsection \<open>A PDB whose DBI stream is its own symbol record stream\<close>
















subsection \<open>The three ages\<close>





end
